theory Spec2Isabelle
  imports Main "HOL-Library.Word"
begin

unbundle bit_operations_syntax

section \<open>Bytes, exceptions and the struct module\<close>

text \<open>
  A Python \<^verbatim>\<open>bytes\<close> object is a list of 8-bit words. Python integers are unbounded,
  hence \<^typ>\<open>int\<close>. Every exception the modelled code can raise is a constructor of
  \<open>error\<close>; a computation that may raise returns \<open>error + 'a\<close> with \<open>Inl\<close> the exception.
\<close>

type_synonym byte = "8 word"
type_synonym bytes = "byte list"

datatype error =
    StructError
  | TypeError
  | UnicodeError
  | AssertionError
  | AttributeError
  | KeyError
  | ValueError
  | IndexError
  | RecursionError

text \<open>Sequencing of computations that may raise.\<close>

definition bindE :: "error + 'a \<Rightarrow> ('a \<Rightarrow> error + 'b) \<Rightarrow> error + 'b" where
  "bindE m f = (case m of Inl e \<Rightarrow> Inl e | Inr x \<Rightarrow> f x)"

text \<open>
  \<^verbatim>\<open>struct.pack\<close> of one field. Format \<^verbatim>\<open>B\<close> requires \<open>0 <= x <= 255\<close>, format \<^verbatim>\<open>H\<close>
  requires \<open>0 <= x <= 65535\<close>; outside the range \<^verbatim>\<open>struct.error\<close> is raised. A field that
  is \<^verbatim>\<open>None\<close> raises \<^verbatim>\<open>struct.error\<close> as well (required argument is not an integer).
\<close>

definition pack_B :: "int \<Rightarrow> error + bytes" where
  "pack_B x = (if 0 \<le> x \<and> x \<le> 255 then Inr [word_of_int x] else Inl StructError)"

definition pack_H_le :: "int \<Rightarrow> error + bytes" where
  "pack_H_le x =
     (if 0 \<le> x \<and> x \<le> 65535 then Inr [word_of_int (x mod 256), word_of_int (x div 256)]
      else Inl StructError)"

definition pack_H_be :: "int \<Rightarrow> error + bytes" where
  "pack_H_be x =
     (if 0 \<le> x \<and> x \<le> 65535 then Inr [word_of_int (x div 256), word_of_int (x mod 256)]
      else Inl StructError)"

definition pack_opt_B :: "int option \<Rightarrow> error + bytes" where
  "pack_opt_B v = (case v of None \<Rightarrow> Inl StructError | Some x \<Rightarrow> pack_B x)"

definition unpack_B :: "byte \<Rightarrow> int" where
  "unpack_B b = uint b"

definition unpack_H_be :: "byte \<Rightarrow> byte \<Rightarrow> int" where
  "unpack_H_be hi lo = uint hi * 256 + uint lo"

text \<open>A \<^verbatim>\<open>bytes\<close> literal written as text, and \<^verbatim>\<open>str.encode('ascii')\<close>.\<close>

definition ascii :: "string \<Rightarrow> bytes" where
  "ascii s = map of_char s"

definition encode_ascii :: "string \<Rightarrow> error + bytes" where
  "encode_ascii s =
     (if \<forall>c \<in> set s. (of_char c :: nat) < 128 then Inr (ascii s) else Inl UnicodeError)"

section \<open>The IEEE 1284.4 packet codec (\<^verbatim>\<open>D4Link.protocol\<close>)\<close>

text \<open>
  \<^verbatim>\<open>hTuple = namedtuple('D4PacketHeader', 'psid ssid length credit control')\<close> with
  \<^verbatim>\<open>hStruct = struct.Struct('>BBHBB')\<close> and \<^verbatim>\<open>hLen = 6\<close>.
\<close>

record D4PacketHeader =
  hdr_psid :: int
  hdr_ssid :: int
  hdr_length :: int
  hdr_credit :: int
  hdr_control :: int

definition hLen :: nat where
  "hLen = 6"

definition payload_length :: "D4PacketHeader \<Rightarrow> int" where
  "payload_length h = hdr_length h - int hLen"

definition cid :: "D4PacketHeader \<Rightarrow> int \<times> int" where
  "cid h = (hdr_psid h, hdr_ssid h)"

text \<open>
  \<^verbatim>\<open>hStruct.unpack(b)\<close> raises \<^verbatim>\<open>struct.error\<close> unless \<open>b\<close> has exactly six bytes.
\<close>

fun hStruct_unpack :: "bytes \<Rightarrow> error + D4PacketHeader" where
  "hStruct_unpack [p, s, l1, l0, cr, ct] =
     Inr \<lparr>hdr_psid = unpack_B p, hdr_ssid = unpack_B s, hdr_length = unpack_H_be l1 l0,
          hdr_credit = unpack_B cr, hdr_control = unpack_B ct\<rparr>"
| "hStruct_unpack _ = Inl StructError"

definition hStruct_pack :: "int \<Rightarrow> int \<Rightarrow> int \<Rightarrow> int \<Rightarrow> int \<Rightarrow> error + bytes" where
  "hStruct_pack p s l cr ct =
     bindE (pack_B p) (\<lambda>bp. bindE (pack_B s) (\<lambda>bs. bindE (pack_H_be l) (\<lambda>bl.
     bindE (pack_B cr) (\<lambda>bcr. bindE (pack_B ct) (\<lambda>bct. Inr (bp @ bs @ bl @ bcr @ bct))))))"

text \<open>\<^verbatim>\<open>decode(cls, b)\<close>: returns \<open>(header, payload)\<close>, the header from \<open>b[:6]\<close>.\<close>

definition d4_decode :: "bytes \<Rightarrow> error + (D4PacketHeader \<times> bytes)" where
  "d4_decode b = bindE (hStruct_unpack (take hLen b)) (\<lambda>h. Inr (h, drop hLen b))"

text \<open>\<^verbatim>\<open>encode(cls, payload=b'', psid=0, ssid=0, credit=1, control=0)\<close>.\<close>

definition d4_encode :: "bytes \<Rightarrow> int \<Rightarrow> int \<Rightarrow> int \<Rightarrow> int \<Rightarrow> error + bytes" where
  "d4_encode payload p s cr ct =
     bindE (hStruct_pack p s (int hLen + int (length payload)) cr ct) (\<lambda>h. Inr (h @ payload))"

section \<open>The Epson control codec (\<^verbatim>\<open>Epson.encode\<close>)\<close>

text \<open>A group of \<^verbatim>\<open>mem\<close> entries of a model: the keys \<^verbatim>\<open>addr\<close>, \<^verbatim>\<open>desc\<close>, and the optional
  keys \<^verbatim>\<open>reset\<close> and \<^verbatim>\<open>min\<close> of the dictionary.\<close>

record mem_entry =
  m_addr :: "int list"
  m_desc :: string
  m_reset :: "int list option"
  m_min :: "int list option"

text \<open>The dataclass \<^verbatim>\<open>Spec\<close>.\<close>

record spec =
  brand :: string
  idVendor :: int
  idProduct :: "int option"
  rkey :: int
  wkey :: "bytes option"
  wkey1 :: "string option"
  rlen :: int
  wlen :: int
  mem_low :: int
  mem_high :: int
  mem :: "mem_entry list"
  models :: "string list"
  model :: "string option"

definition default_spec :: spec where
  "default_spec = \<lparr>brand = ''EPSON'', idVendor = 0x04b8, idProduct = None, rkey = 0,
     wkey = None, wkey1 = None, rlen = 2, wlen = 2, mem_low = 0x00, mem_high = 0xff,
     mem = [], models = [], model = None\<rparr>"

text \<open>
  The command argument of \<^verbatim>\<open>encode\<close> is \<^verbatim>\<open>str | tuple[str, str]\<close>: a plain two-character
  command, or a factory command \<open>(outer, inner)\<close>.
\<close>

datatype ctrl_cmd = Plain string | Factory string string

text \<open>\<^verbatim>\<open>ord(s)\<close> raises \<^verbatim>\<open>TypeError\<close> unless \<open>s\<close> has length one.\<close>

fun ord :: "string \<Rightarrow> error + int" where
  "ord [c] = Inr (of_char c)"
| "ord _ = Inl TypeError"

text \<open>The checksum bytes of a factory command:
  \<^verbatim>\<open>~c & 0xff\<close> and \<^verbatim>\<open>(c>>1 & 0x7f) | (c<<7 & 0x80)\<close>.\<close>

definition inv8 :: "int \<Rightarrow> int" where
  "inv8 c = (NOT c) AND 0xff"

definition rot1 :: "int \<Rightarrow> int" where
  "rot1 c = (drop_bit 1 c AND 0x7f) OR (push_bit 7 c AND 0x80)"

text \<open>
  \<^verbatim>\<open>
  def encode(self, cmd, payload=b''):
      if isinstance(cmd, tuple): # "factory command"
          c = ord(cmd[1])
          p = struct.pack('<HBBB', self.spec.rkey, c, ~c & 0xff, (c>>1 & 0x7f) | (c<<7 & 0x80))
          cmd, payload = cmd[0]*2, p + payload
      if isinstance(cmd, str):
          cmd = cmd.encode('ascii')
      return cmd + struct.pack('<H', len(payload)) + payload
  \<close>
\<close>

definition frame :: "string \<Rightarrow> bytes \<Rightarrow> error + bytes" where
  "frame cmd payload =
     bindE (encode_ascii cmd) (\<lambda>c.
     bindE (pack_H_le (int (length payload))) (\<lambda>l. Inr (c @ l @ payload)))"

fun encode :: "spec \<Rightarrow> ctrl_cmd \<Rightarrow> bytes \<Rightarrow> error + bytes" where
  "encode sp (Factory outer inner) payload =
     bindE (ord inner) (\<lambda>c.
     bindE (pack_H_le (rkey sp)) (\<lambda>bk.
     bindE (pack_B c) (\<lambda>b1.
     bindE (pack_B (inv8 c)) (\<lambda>b2.
     bindE (pack_B (rot1 c)) (\<lambda>b3.
     frame (outer @ outer) ((bk @ b1 @ b2 @ b3) @ payload))))))"
| "encode sp (Plain cmd) payload = frame cmd payload"

section \<open>EEPROM operations (\<^verbatim>\<open>Epson.read_eeprom\<close>, \<^verbatim>\<open>Epson.write_eeprom\<close>)\<close>

text \<open>
  The control channel is the callable \<open>c\<close> obtained from \<^verbatim>\<open>with self.ctrl_channel as c\<close>:
  \<open>c(m)\<close> sends the message \<open>m\<close> and returns the reply, \<^verbatim>\<open>bytes\<close> or \<^verbatim>\<open>None\<close>, or raises.
  The class \<^verbatim>\<open>Epson\<close> leaves it to its subclasses (\<^verbatim>\<open>_init_link\<close>), so it is a parameter
  here: a function on the state \<open>'d\<close> of whatever is behind the channel. The state after
  an exception is kept, as the printer has seen everything sent before the exception.
  Entering and leaving the scope of the channel is left to the parameter as well: for
  \<^verbatim>\<open>EpsonSNMP\<close> the scope is a \<^verbatim>\<open>nullcontext\<close>, for a channel of the link it opens and closes
  the channel on the transaction channel, which sends no control message.
\<close>

type_synonym 'd channel_call = "bytes \<Rightarrow> 'd \<Rightarrow> (error + bytes option) \<times> 'd"

text \<open>Arguments evaluated one after the other; the first that raises ends the evaluation.\<close>

fun mapE :: "('a \<Rightarrow> error + 'b) \<Rightarrow> 'a list \<Rightarrow> error + 'b list" where
  "mapE f [] = Inr []"
| "mapE f (x # xs) = bindE (f x) (\<lambda>y. bindE (mapE f xs) (\<lambda>ys. Inr (y # ys)))"

text \<open>\<^verbatim>\<open>struct.pack('<'+c, a)\<close> with \<^verbatim>\<open>c = 'B' if len == 1 else 'H'\<close>.\<close>

definition pack_addr :: "int \<Rightarrow> int \<Rightarrow> error + bytes" where
  "pack_addr n a = (if n = 1 then pack_B a else pack_H_le a)"

text \<open>
  \<^verbatim>\<open>r.decode('ascii')\<close>: the text is kept as the list of its code points, which for ASCII
  are the values of the bytes.
\<close>

definition decode_ascii :: "bytes \<Rightarrow> error + int list" where
  "decode_ascii b =
     (if \<forall>x \<in> set b. uint x < 128 then Inr (map uint b) else Inl UnicodeError)"

text \<open>
  The character classes of the pattern \<^verbatim>\<open>.*?\sEE:([0-9a-fA-F]{6,6});\<close> on ASCII text:
  \<^verbatim>\<open>\s\<close> is tab, line feed, vertical tab, form feed, carriage return, the separators
  \<open>0x1c\<close> to \<open>0x1f\<close> and the space; \<^verbatim>\<open>.\<close> is every character but the line feed.
\<close>

definition is_space :: "int \<Rightarrow> bool" where
  "is_space c = ((9 \<le> c \<and> c \<le> 13) \<or> (28 \<le> c \<and> c \<le> 32))"

definition is_hex :: "int \<Rightarrow> bool" where
  "is_hex c = ((48 \<le> c \<and> c \<le> 57) \<or> (97 \<le> c \<and> c \<le> 102) \<or> (65 \<le> c \<and> c \<le> 70))"

text \<open>The part of the pattern after the lazy prefix, matched at the head of the text:
  it returns the group.\<close>

fun match_EE :: "int list \<Rightarrow> int list option" where
  "match_EE (w # e1 # e2 # c # h1 # h2 # h3 # h4 # h5 # h6 # s # _) =
     (if is_space w \<and> e1 = 69 \<and> e2 = 69 \<and> c = 58
         \<and> is_hex h1 \<and> is_hex h2 \<and> is_hex h3 \<and> is_hex h4 \<and> is_hex h5 \<and> is_hex h6
         \<and> s = 59
      then Some [h1, h2, h3, h4, h5, h6] else None)"
| "match_EE _ = None"

text \<open>\<^verbatim>\<open>re.match\<close>: the lazy prefix \<^verbatim>\<open>.*?\<close> gives way one character at a time, never
  over a line feed.\<close>

fun re_match_EE :: "int list \<Rightarrow> int list option" where
  "re_match_EE [] = None"
| "re_match_EE (c # cs) =
     (case match_EE (c # cs) of
        Some g \<Rightarrow> Some g
      | None \<Rightarrow> if c = 10 then None else re_match_EE cs)"

definition hexval :: "int \<Rightarrow> int" where
  "hexval c = (if c \<le> 57 then c - 48 else if 97 \<le> c then c - 87 else c - 55)"

text \<open>\<^verbatim>\<open>bytes.fromhex\<close> on text without white space.\<close>

fun fromhex :: "int list \<Rightarrow> error + bytes" where
  "fromhex [] = Inr []"
| "fromhex [a] = Inl ValueError"
| "fromhex (a # b # cs) =
     (if is_hex a \<and> is_hex b
      then bindE (fromhex cs) (\<lambda>r. Inr (word_of_int (hexval a * 16 + hexval b) # r))
      else Inl ValueError)"

text \<open>\<^verbatim>\<open>struct.unpack('>'+c+'B', b)\<close>: the buffer must have exactly the size of the format.\<close>

definition unpack_addr_val :: "int \<Rightarrow> bytes \<Rightarrow> error + (int \<times> int)" where
  "unpack_addr_val n b =
     (if n = 1
      then (case b of [p, v] \<Rightarrow> Inr (unpack_B p, unpack_B v) | _ \<Rightarrow> Inl StructError)
      else (case b of [p1, p0, v] \<Rightarrow> Inr (unpack_H_be p1 p0, unpack_B v) | _ \<Rightarrow> Inl StructError))"

text \<open>
  The body of the \<^verbatim>\<open>try\<close> of \<^verbatim>\<open>read_eeprom\<close>, for the address \<open>a\<close> and the reply \<open>r\<close>:
  \<^verbatim>\<open>
  v = re.match(r'.*?\sEE:([0-9a-fA-F]{6,6});', r.decode('ascii'))
  p, val = struct.unpack('>'+c+'B', bytes.fromhex(v.group(1)))
  assert p == a
  \<close>
  A reply \<^verbatim>\<open>None\<close> has no \<^verbatim>\<open>decode\<close>, a failed match has no \<^verbatim>\<open>group\<close>.
\<close>

definition parse_reply :: "int \<Rightarrow> int \<Rightarrow> bytes option \<Rightarrow> error + int" where
  "parse_reply n a r =
     (case r of
        None \<Rightarrow> Inl AttributeError
      | Some b \<Rightarrow>
          bindE (decode_ascii b) (\<lambda>t.
            case re_match_EE t of
              None \<Rightarrow> Inl AttributeError
            | Some g \<Rightarrow>
                bindE (fromhex g) (\<lambda>bs.
                bindE (unpack_addr_val n bs) (\<lambda>(p, val).
                if p = a then Inr val else Inl AssertionError))))"

text \<open>The \<^verbatim>\<open>try\<close> with its bare \<^verbatim>\<open>except\<close>: the slot appended to the result.\<close>

definition read_slot :: "int \<Rightarrow> int \<Rightarrow> bytes option \<Rightarrow> int \<times> int option" where
  "read_slot n a r = (case parse_reply n a r of Inl _ \<Rightarrow> (a, None) | Inr v \<Rightarrow> (a, Some v))"

text \<open>
  \<^verbatim>\<open>
  def read_eeprom(self, *addr):
      if not addr:
          addr = range(self.spec.mem_low, self.spec.mem_high+1)
      c = 'B' if self.spec.rlen == 1 else 'H'
      CMD = ('|', 'A')
      res = []
      for (a,r) in zip(addr, self._ictrl(*((CMD, struct.pack('<'+c, a)) for a in addr))):
          try: ... res.append((a, val))
          except: res.append((a, None))
      return res
  \<close>
  The generator expression is unpacked into the arguments of \<^verbatim>\<open>_ictrl\<close>: every address is
  packed before anything is sent. \<^verbatim>\<open>_ictrl\<close> and \<^verbatim>\<open>_iencode\<close> are generators: a message is
  encoded and sent when the loop asks for the next reply.
\<close>

fun read_loop ::
  "'d channel_call \<Rightarrow> spec \<Rightarrow> (int \<times> bytes) list \<Rightarrow> 'd \<Rightarrow> (error + (int \<times> int option) list) \<times> 'd"
where
  "read_loop chan sp [] d = (Inr [], d)"
| "read_loop chan sp ((a, pl) # rest) d =
     (case encode sp (Factory ''|'' ''A'') pl of
        Inl e \<Rightarrow> (Inl e, d)
      | Inr m \<Rightarrow>
          (case chan m d of
             (Inl e, d1) \<Rightarrow> (Inl e, d1)
           | (Inr r, d1) \<Rightarrow>
               (case read_loop chan sp rest d1 of
                  (Inl e, d2) \<Rightarrow> (Inl e, d2)
                | (Inr res, d2) \<Rightarrow> (Inr (read_slot (rlen sp) a r # res), d2))))"

definition read_eeprom ::
  "'d channel_call \<Rightarrow> spec \<Rightarrow> int list \<Rightarrow> 'd \<Rightarrow> (error + (int \<times> int option) list) \<times> 'd"
where
  "read_eeprom chan sp addr d =
     (let addr' = (if addr = [] then [mem_low sp..mem_high sp] else addr) in
      case mapE (pack_addr (rlen sp)) addr' of
        Inl e \<Rightarrow> (Inl e, d)
      | Inr ps \<Rightarrow> read_loop chan sp (zip addr' ps) d)"

text \<open>\<^verbatim>\<open>pat in r\<close> on \<^verbatim>\<open>bytes\<close>.\<close>

fun contains_bytes :: "bytes \<Rightarrow> bytes \<Rightarrow> bool" where
  "contains_bytes pat [] = (pat = [])"
| "contains_bytes pat (x # xs) = (take (length pat) (x # xs) = pat \<or> contains_bytes pat xs)"

text \<open>
  The arguments of the write: \<^verbatim>\<open>struct.pack('<'+c+'B', a, v) + wkey\<close> for every pair, all
  evaluated before anything is sent. A value \<^verbatim>\<open>None\<close> cannot be packed; a key \<^verbatim>\<open>None\<close>
  cannot be appended to \<^verbatim>\<open>bytes\<close>.
\<close>

definition write_arg :: "spec \<Rightarrow> bytes option \<Rightarrow> int \<times> int option \<Rightarrow> error + bytes" where
  "write_arg sp wk av =
     bindE (pack_addr (wlen sp) (fst av)) (\<lambda>ba.
     bindE (pack_opt_B (snd av)) (\<lambda>bv.
     case wk of None \<Rightarrow> Inl TypeError | Some k \<Rightarrow> Inr ((ba @ bv) @ k)))"

text \<open>
  The loop of \<^verbatim>\<open>write_eeprom\<close>:
  \<^verbatim>\<open>
  res = True
  for ((a,v),r) in zip(addrval, self._ictrl(*((CMD, ...) for (a,v) in addrval))):
      res &= ((b':OK;' in r) and ((not check_read) or
                                  (self.read_eeprom(a) == [(a, v)])))
  \<close>
  \<^verbatim>\<open>b':OK;' in r\<close> raises \<^verbatim>\<open>TypeError\<close> when the reply is \<^verbatim>\<open>None\<close>.
\<close>

fun write_loop ::
  "'d channel_call \<Rightarrow> spec \<Rightarrow> bool \<Rightarrow> ((int \<times> int option) \<times> bytes) list \<Rightarrow> bool \<Rightarrow> 'd
     \<Rightarrow> (error + bool) \<times> 'd"
where
  "write_loop chan sp check_read [] res d = (Inr res, d)"
| "write_loop chan sp check_read ((av, pl) # rest) res d =
     (case encode sp (Factory ''|'' ''B'') pl of
        Inl e \<Rightarrow> (Inl e, d)
      | Inr m \<Rightarrow>
          (case chan m d of
             (Inl e, d1) \<Rightarrow> (Inl e, d1)
           | (Inr None, d1) \<Rightarrow> (Inl TypeError, d1)
           | (Inr (Some r), d1) \<Rightarrow>
               if contains_bytes (ascii '':OK;'') r then
                 (if \<not> check_read then write_loop chan sp check_read rest res d1
                  else
                    (case read_eeprom chan sp [fst av] d1 of
                       (Inl e, d2) \<Rightarrow> (Inl e, d2)
                     | (Inr rd, d2) \<Rightarrow>
                         write_loop chan sp check_read rest (res \<and> rd = [av]) d2))
               else write_loop chan sp check_read rest False d1))"

text \<open>\<^verbatim>\<open>write_eeprom\<close> with \<^verbatim>\<open>atomic=False\<close>, the key already chosen.\<close>

definition write_plain ::
  "'d channel_call \<Rightarrow> spec \<Rightarrow> (int \<times> int option) list \<Rightarrow> bytes option \<Rightarrow> bool \<Rightarrow> 'd
     \<Rightarrow> (error + bool) \<times> 'd"
where
  "write_plain chan sp addrval wk check_read d =
     (case mapE (write_arg sp wk) addrval of
        Inl e \<Rightarrow> (Inl e, d)
      | Inr ps \<Rightarrow> write_loop chan sp check_read (zip addrval ps) True d)"

text \<open>
  \<^verbatim>\<open>
  def write_eeprom(self, *addrval, wkey=None, check_read=True, atomic=False):
      if atomic:
          prev = self.read_eeprom(*(a[0] for a in addrval))
      if wkey is None:
          wkey = self.spec.wkey
      ...
      if atomic and not res:
          self.write_eeprom(*prev, wkey=wkey, check_read=check_read, atomic=False)
      return res
  \<close>
  The values of \<open>prev\<close> come from \<^verbatim>\<open>read_eeprom\<close> and may be \<^verbatim>\<open>None\<close>, so the values of the
  pairs are optional. The inner call has \<^verbatim>\<open>atomic=False\<close> and the key of the outer one:
  it is \<open>write_plain\<close>.
\<close>

definition write_eeprom ::
  "'d channel_call \<Rightarrow> spec \<Rightarrow> (int \<times> int option) list \<Rightarrow> bytes option \<Rightarrow> bool \<Rightarrow> bool \<Rightarrow> 'd
     \<Rightarrow> (error + bool) \<times> 'd"
where
  "write_eeprom chan sp addrval wkey_arg check_read atomic d =
     (let wk = (case wkey_arg of None \<Rightarrow> wkey sp | Some k \<Rightarrow> Some k) in
      if atomic then
        (case read_eeprom chan sp (map fst addrval) d of
           (Inl e, d1) \<Rightarrow> (Inl e, d1)
         | (Inr prev, d1) \<Rightarrow>
             (case write_plain chan sp addrval wk check_read d1 of
                (Inl e, d2) \<Rightarrow> (Inl e, d2)
              | (Inr res, d2) \<Rightarrow>
                  if \<not> res then
                    (case write_plain chan sp prev wk check_read d2 of
                       (Inl e, d3) \<Rightarrow> (Inl e, d3)
                     | (Inr _, d3) \<Rightarrow> (Inr res, d3))
                  else (Inr res, d2)))
      else write_plain chan sp addrval wk check_read d)"

text \<open>
  \<^verbatim>\<open>
  def find_rkey(self, ikeys=range(0x0,0xffff)):
      orig = self.spec.rkey
      pos = self.spec.mem_low
      with self.ctrl_channel:
          for c in ikeys:
              self.spec.rkey = c
              if self.read_eeprom(pos)[0][1] is not None:
                  return c
          else:
              self.spec.rkey = orig
  \<close>
  The spec is mutated, so it is returned with the result, also when an exception ends the
  search.
\<close>

fun find_rkey_loop ::
  "'d channel_call \<Rightarrow> spec \<Rightarrow> int \<Rightarrow> int \<Rightarrow> int list \<Rightarrow> 'd \<Rightarrow> (error + int option) \<times> spec \<times> 'd"
where
  "find_rkey_loop chan sp orig pos [] d = (Inr None, sp\<lparr>rkey := orig\<rparr>, d)"
| "find_rkey_loop chan sp orig pos (c # cs) d =
     (case read_eeprom chan (sp\<lparr>rkey := c\<rparr>) [pos] d of
        (Inl e, d1) \<Rightarrow> (Inl e, sp\<lparr>rkey := c\<rparr>, d1)
      | (Inr [], d1) \<Rightarrow> (Inl IndexError, sp\<lparr>rkey := c\<rparr>, d1)
      | (Inr ((a, Some v) # _), d1) \<Rightarrow> (Inr (Some c), sp\<lparr>rkey := c\<rparr>, d1)
      | (Inr ((a, None) # _), d1) \<Rightarrow> find_rkey_loop chan (sp\<lparr>rkey := c\<rparr>) orig pos cs d1)"

definition find_rkey ::
  "'d channel_call \<Rightarrow> spec \<Rightarrow> int list \<Rightarrow> 'd \<Rightarrow> (error + int option) \<times> spec \<times> 'd"
where
  "find_rkey chan sp ikeys d = find_rkey_loop chan sp (rkey sp) (mem_low sp) ikeys d"

text \<open>The default of \<open>ikeys\<close>, \<^verbatim>\<open>range(0x0, 0xffff)\<close>.\<close>

definition default_ikeys :: "int list" where
  "default_ikeys = [0..0xfffe]"

text \<open>
  What the six hex characters of a reply \<^verbatim>\<open>@BDC PS EE:<6 hex chars>;\<close> stand for when the
  address has two bytes: the address, big-endian, in the first four and the value in the
  last two.
\<close>

definition hex_addr :: "byte \<Rightarrow> byte \<Rightarrow> byte \<Rightarrow> byte \<Rightarrow> int" where
  "hex_addr h1 h2 h3 h4 = (hexval (uint h1) * 16 + hexval (uint h2)) * 256 + (hexval (uint h3) * 16 + hexval (uint h4))"

definition hex_val :: "byte \<Rightarrow> byte \<Rightarrow> int" where
  "hex_val h5 h6 = hexval (uint h5) * 16 + hexval (uint h6)"

section \<open>Channels for observation\<close>

text \<open>
  Two channels to run the operations on. \<open>logged chan\<close> behaves as \<open>chan\<close> and records
  every message it is called with, in order. \<open>scripted\<close> is a simulated printer: its
  state is the list of the replies it will give, one for each call, and \<^verbatim>\<open>None\<close> once the
  list is used up.
\<close>

definition logged :: "'d channel_call \<Rightarrow> ('d \<times> bytes list) channel_call" where
  "logged chan m dl = (case chan m (fst dl) of (r, d') \<Rightarrow> (r, (d', snd dl @ [m])))"

definition scripted :: "(bytes option list) channel_call" where
  "scripted m rs = (case rs of [] \<Rightarrow> (Inr None, []) | r # rs' \<Rightarrow> (Inr r, rs'))"

text \<open>The messages sent on a channel one after the other, with the replies they get.\<close>

fun exchange :: "'d channel_call \<Rightarrow> bytes list \<Rightarrow> 'd \<Rightarrow> (error + bytes option list) \<times> 'd" where
  "exchange chan [] d = (Inr [], d)"
| "exchange chan (m # ms) d =
     (case chan m d of
        (Inl e, d1) \<Rightarrow> (Inl e, d1)
      | (Inr r, d1) \<Rightarrow>
          (case exchange chan ms d1 of
             (Inl e, d2) \<Rightarrow> (Inl e, d2)
           | (Inr rs, d2) \<Rightarrow> (Inr (r # rs), d2)))"

text \<open>
  Recognisers for the two factory commands on the wire: outer command \<^verbatim>\<open>||\<close>, and after
  the length and the read key the inner character with its two checksum bytes.
\<close>

definition is_factory_read :: "bytes \<Rightarrow> bool" where
  "is_factory_read m = (take 2 m = [0x7C, 0x7C] \<and> take 3 (drop 6 m) = [0x41, 0xBE, 0xA0])"

definition is_factory_write :: "bytes \<Rightarrow> bool" where
  "is_factory_write m = (take 2 m = [0x7C, 0x7C] \<and> take 3 (drop 6 m) = [0x42, 0xBD, 0x21])"

section \<open>Reset operations (\<^verbatim>\<open>Spec.get_mem\<close>, \<^verbatim>\<open>Epson._make_reset\<close>, \<^verbatim>\<open>Epson._mem_ops\<close>)\<close>

text \<open>
  \<^verbatim>\<open>re.search(pat, desc, re.I)\<close> for a pattern without special characters, as the two
  patterns of \<^verbatim>\<open>_mem_ops\<close> are: the pattern occurs in the description, letters compared
  without case. Descriptions are strings of code points below 256, where the letters of
  the patterns match their upper and lower case forms only.
\<close>

definition lower_code :: "nat \<Rightarrow> nat" where
  "lower_code n = (if 65 \<le> n \<and> n \<le> 90 then n + 32 else n)"

definition ci_eq :: "char \<Rightarrow> char \<Rightarrow> bool" where
  "ci_eq a b = (lower_code (of_char a) = lower_code (of_char b))"

fun ci_prefix :: "string \<Rightarrow> string \<Rightarrow> bool" where
  "ci_prefix [] s = True"
| "ci_prefix (p # ps) [] = False"
| "ci_prefix (p # ps) (c # cs) = (ci_eq p c \<and> ci_prefix ps cs)"

fun re_search_I :: "string \<Rightarrow> string \<Rightarrow> bool" where
  "re_search_I pat [] = ci_prefix pat []"
| "re_search_I pat (c # cs) = (ci_prefix pat (c # cs) \<or> re_search_I pat cs)"

text \<open>
  A Python \<^verbatim>\<open>dict\<close> keeps its keys in the order of their first insertion; storing under a
  key it has replaces the value in place. \<^verbatim>\<open>av.update(pairs)\<close> stores the pairs in order.
\<close>

fun dict_set :: "'k \<Rightarrow> 'v \<Rightarrow> ('k \<times> 'v) list \<Rightarrow> ('k \<times> 'v) list" where
  "dict_set k v [] = [(k, v)]"
| "dict_set k v (p # ps) = (if fst p = k then (k, v) # ps else p # dict_set k v ps)"

definition dict_update :: "('k \<times> 'v) list \<Rightarrow> ('k \<times> 'v) list \<Rightarrow> ('k \<times> 'v) list" where
  "dict_update av kvs = foldl (\<lambda>d kv. dict_set (fst kv) (snd kv) d) av kvs"

text \<open>
  \<^verbatim>\<open>
  def get_mem(self, pat='waste counter'):
      av = {}
      for m in self.mem:
          if re.search(pat, m['desc'], re.I):
              av.update(zip(m['addr'], m.get('reset', [0]*len(m['addr']))))
      if av:
          return {'desc': 'All %ss' % pat, 'addr': list(av.keys()),
                  'reset': list(av.values())}
  \<close>
\<close>

definition get_reset :: "mem_entry \<Rightarrow> int list" where
  "get_reset m =
     (case m_reset m of Some r \<Rightarrow> r | None \<Rightarrow> replicate (length (m_addr m)) 0)"

definition get_mem_av :: "mem_entry list \<Rightarrow> string \<Rightarrow> (int \<times> int) list" where
  "get_mem_av ms pat =
     foldl (\<lambda>av m. if re_search_I pat (m_desc m)
                     then dict_update av (zip (m_addr m) (get_reset m)) else av) [] ms"

definition get_mem :: "spec \<Rightarrow> string \<Rightarrow> mem_entry option" where
  "get_mem sp pat =
     (let av = get_mem_av (mem sp) pat in
      if av \<noteq> [] then
        Some \<lparr>m_addr = map fst av, m_desc = ''All '' @ pat @ ''s'',
              m_reset = Some (map snd av), m_min = None\<rparr>
      else None)"

text \<open>
  \<^verbatim>\<open>
  def _make_reset(self, addr=(), desc='', reset=(), min=(), **kw):
      reset = reset or min or [0]*len(addr)
      f = lambda: self.write_eeprom(*zip(addr, reset), atomic=True)
  \<close>
  An absent key has the default \<^verbatim>\<open>()\<close>, which is false like the empty list. The operation
  is kept as its description and the pairs it writes; its name, made of the description
  and the addresses, is left out.
\<close>

definition reset_values :: "mem_entry \<Rightarrow> int list" where
  "reset_values m =
     (case m_reset m of
        Some (x # xs) \<Rightarrow> x # xs
      | _ \<Rightarrow> (case m_min m of
                 Some (y # ys) \<Rightarrow> y # ys
               | _ \<Rightarrow> replicate (length (m_addr m)) 0))"

record reset_op =
  op_desc :: string
  op_pairs :: "(int \<times> int) list"

definition make_reset :: "mem_entry \<Rightarrow> reset_op" where
  "make_reset m = \<lparr>op_desc = m_desc m, op_pairs = zip (m_addr m) (reset_values m)\<rparr>"

text \<open>Calling the operation: one \<^verbatim>\<open>write_eeprom\<close> of all its pairs with \<^verbatim>\<open>atomic=True\<close>.\<close>

definition run_reset ::
  "'d channel_call \<Rightarrow> spec \<Rightarrow> reset_op \<Rightarrow> 'd \<Rightarrow> (error + bool) \<times> 'd"
where
  "run_reset chan sp op d =
     write_eeprom chan sp (map (\<lambda>av. (fst av, Some (snd av))) (op_pairs op)) None True True d"

text \<open>
  \<^verbatim>\<open>
  def _mem_ops(self):
      for m in self.spec.mem:
          yield self._make_reset(**m)
      for g in ('waste counter', 'platen pad counter'):
          m = self.spec.get_mem(g)
          if m: yield self._make_reset(**m)
  \<close>
\<close>

definition mem_ops :: "spec \<Rightarrow> reset_op list" where
  "mem_ops sp =
     map make_reset (mem sp)
     @ concat (map (\<lambda>g. case get_mem sp g of None \<Rightarrow> [] | Some m \<Rightarrow> [make_reset m])
                 [''waste counter'', ''platen pad counter''])"

section \<open>The transaction protocol (\<^verbatim>\<open>_make_tx_command\<close>, \<^verbatim>\<open>protocol_0x20\<close>, \<^verbatim>\<open>protocol_0x10\<close>)\<close>

text \<open>
  A field of a command is an integer, the trailing service name, or \<^verbatim>\<open>None\<close> (a default of
  \<^verbatim>\<open>OpenChannelReply\<close>). A decoded command is its name with its fields in order: the
  named tuple \<open>hTuple\<close> with its class attribute \<^verbatim>\<open>name\<close>.
\<close>

datatype val = VInt int | VStr string | VNone

record tx_packet =
  tx_name :: string
  tx_vals :: "(string \<times> val) list"

text \<open>
  A row of a command table, the arguments of \<^verbatim>\<open>_make_tx_command\<close>: code, name, struct
  format (characters \<^verbatim>\<open>B\<close>, \<^verbatim>\<open>H\<close> and a final \<^verbatim>\<open>*\<close> for the trailing text), field names,
  defaults of the last fields.
\<close>

type_synonym tx_row = "int \<times> string \<times> string \<times> string list \<times> val list"

definition row_code :: "tx_row \<Rightarrow> int" where
  "row_code r = fst r"

definition row_name :: "tx_row \<Rightarrow> string" where
  "row_name r = fst (snd r)"

definition row_sformat :: "tx_row \<Rightarrow> string" where
  "row_sformat r = fst (snd (snd r))"

definition row_fields :: "tx_row \<Rightarrow> string list" where
  "row_fields r = fst (snd (snd (snd r)))"

definition row_defaults :: "tx_row \<Rightarrow> val list" where
  "row_defaults r = snd (snd (snd (snd r)))"

text \<open>\<^verbatim>\<open>hFormat\<close> without its byte order mark, and \<^verbatim>\<open>star\<close>.\<close>

definition row_format :: "tx_row \<Rightarrow> string" where
  "row_format r = filter (\<lambda>c. c \<noteq> CHR ''*'') (row_sformat r)"

definition row_star :: "tx_row \<Rightarrow> bool" where
  "row_star r = (row_sformat r \<noteq> [] \<and> last (row_sformat r) = CHR ''*'')"

definition protocol_0x20 :: "tx_row list" where
  "protocol_0x20 =
    [(0x00, ''Init'', ''B'', [''revision''], [VInt 0x20]),
     (0x80, ''InitReply'', ''BB'', [''result'', ''revision''], [VInt 0x20]),
     (0x01, ''OpenChannel'', ''BBHHH'', [''sidP'', ''sidS'', ''maxPTS'', ''maxSTP'', ''maxCredit''],
        [VInt 0x100, VInt 0x100, VInt 0x0]),
     (0x81, ''OpenChannelReply'', ''BBBHHHH'',
        [''result'', ''sidP'', ''sidS'', ''maxPTS'', ''maxSTP'', ''maxCredit'', ''grantedCredit''],
        [VNone, VNone, VNone, VNone, VNone]),
     (0x02, ''CloseChannel'', ''BB'', [''sidP'', ''sidS''], []),
     (0x82, ''CloseChannelReply'', ''BBB'', [''result'', ''sidP'', ''sidS''], []),
     (0x03, ''Credit'', ''BBH'', [''sidP'', ''sidS'', ''addCredit''], []),
     (0x83, ''CreditReply'', ''BBB'', [''result'', ''sidP'', ''sidS''], []),
     (0x04, ''CreditRequest'', ''BBH'', [''sidP'', ''sidS'', ''maxCredit''], [VInt 0x0]),
     (0x84, ''CreditRequestReply'', ''BBBH'', [''result'', ''sidP'', ''sidS'', ''addCredit''], []),
     (0x08, ''Exit'', '''', [], []),
     (0x88, ''ExitReply'', ''B'', [''result''], []),
     (0x09, ''GetSocketID'', ''*'', [''serviceName''], []),
     (0x89, ''GetSocketIDReply'', ''BB*'', [''result'', ''socketID'', ''serviceName''], []),
     (0x0A, ''GetServiceName'', ''B'', [''socketID''], []),
     (0x8A, ''GetServiceNameReply'', ''BB*'', [''result'', ''socketID'', ''serviceName''], []),
     (0x7F, ''Error'', ''BBB'', [''errorPSID'', ''errorSSID'', ''errorCode''], [])]"

definition protocol_0x10 :: "tx_row list" where
  "protocol_0x10 =
    [(0x00, ''Init'', ''B'', [''revision''], [VInt 0x10]),
     (0x80, ''InitReply'', ''BB'', [''result'', ''revision''], [VInt 0x10]),
     (0x01, ''OpenChannel'', ''BBHHHH'',
        [''sidP'', ''sidS'', ''maxPTS'', ''maxSTP'', ''maxCredit'', ''initCredit''],
        [VInt 0x0100, VInt 0x0100, VInt 0x0000, VInt 0x0000]),
     (0x81, ''OpenChannelReply'', ''BBBHHHH'',
        [''result'', ''sidP'', ''sidS'', ''maxPTS'', ''maxSTP'', ''maxCredit'', ''grantedCredit''],
        [VNone, VNone, VNone, VNone, VNone]),
     (0x02, ''CloseChannel'', ''BBB'', [''sidP'', ''sidS'', ''x1''], [VInt 0x00]),
     (0x82, ''CloseChannelReply'', ''BBB'', [''result'', ''sidP'', ''sidS''], []),
     (0x03, ''Credit'', ''BBH'', [''sidP'', ''sidS'', ''addCredit''], []),
     (0x83, ''CreditReply'', ''BBB'', [''result'', ''sidP'', ''sidS''], []),
     (0x04, ''CreditRequest'', ''BBHH'', [''sidP'', ''sidS'', ''x1'', ''x2''],
        [VInt 0x0080, VInt 0xffff]),
     (0x84, ''CreditRequestReply'', ''BBBH'', [''result'', ''sidP'', ''sidS'', ''addCredit''], []),
     (0x08, ''Exit'', '''', [], []),
     (0x88, ''ExitReply'', ''B'', [''result''], []),
     (0x09, ''GetSocketID'', ''*'', [''serviceName''], []),
     (0x89, ''GetSocketIDReply'', ''BB*'', [''result'', ''socketID'', ''serviceName''], []),
     (0x0A, ''GetServiceName'', ''B'', [''socketID''], []),
     (0x8A, ''GetServiceNameReply'', ''BB*'', [''result'', ''socketID'', ''serviceName''], []),
     (0x7F, ''Error'', ''BBB'', [''errorPSID'', ''errorSSID'', ''errorCode''], [])]"

text \<open>The class attribute \<^verbatim>\<open>protocol\<close> of the transaction channel is one of the two tables.\<close>

datatype revision = Rev0x10 | Rev0x20

definition table :: "revision \<Rightarrow> tx_row list" where
  "table rv = (case rv of Rev0x10 \<Rightarrow> protocol_0x10 | Rev0x20 \<Rightarrow> protocol_0x20)"

text \<open>
  \<^verbatim>\<open>hTuple(*args)\<close>: the named tuple takes at most as many arguments as it has fields, and
  the fields without argument need a default; otherwise \<^verbatim>\<open>TypeError\<close>.
\<close>

definition hTuple :: "tx_row \<Rightarrow> val list \<Rightarrow> error + tx_packet" where
  "hTuple r args =
     (let n = length (row_fields r); d = row_defaults r in
      if length args > n \<or> length args + length d < n then Inl TypeError
      else Inr \<lparr>tx_name = row_name r,
                tx_vals = zip (row_fields r) (args @ drop (length args + length d - n) d)\<rparr>)"

text \<open>\<^verbatim>\<open>struct.calcsize\<close>, \<^verbatim>\<open>struct.unpack\<close> and \<^verbatim>\<open>struct.pack\<close> for a big-endian format of
  \<^verbatim>\<open>B\<close> and \<^verbatim>\<open>H\<close>.\<close>

fun calcsize :: "string \<Rightarrow> nat" where
  "calcsize [] = 0"
| "calcsize (c # cs) = (if c = CHR ''H'' then 2 else 1) + calcsize cs"

fun unpack_be :: "string \<Rightarrow> bytes \<Rightarrow> error + val list" where
  "unpack_be [] [] = Inr []"
| "unpack_be [] (b # bs) = Inl StructError"
| "unpack_be (c # cs) bs =
     (if c = CHR ''H'' then
        (case bs of
           b1 # b0 # rest \<Rightarrow> bindE (unpack_be cs rest) (\<lambda>vs. Inr (VInt (unpack_H_be b1 b0) # vs))
         | _ \<Rightarrow> Inl StructError)
      else
        (case bs of
           b # rest \<Rightarrow> bindE (unpack_be cs rest) (\<lambda>vs. Inr (VInt (unpack_B b) # vs))
         | _ \<Rightarrow> Inl StructError))"

definition pack_val :: "char \<Rightarrow> val \<Rightarrow> error + bytes" where
  "pack_val c v =
     (case v of
        VInt x \<Rightarrow> if c = CHR ''H'' then pack_H_be x else pack_B x
      | _ \<Rightarrow> Inl StructError)"

fun pack_be :: "string \<Rightarrow> val list \<Rightarrow> error + bytes" where
  "pack_be [] [] = Inr []"
| "pack_be (c # cs) (v # vs) =
     bindE (pack_val c v) (\<lambda>b. bindE (pack_be cs vs) (\<lambda>bs. Inr (b @ bs)))"
| "pack_be _ _ = Inl StructError"

text \<open>
  The loop of \<^verbatim>\<open>decode\<close> for a truncated command:
  \<^verbatim>\<open>
  for sCap in range(len(hFormat)-1,1,-1):
      bCap = struct.calcsize(hFormat[:sCap])
      if bCap <= len(b):
          return hTuple(*struct.unpack(hFormat[:sCap], b[:bCap]))
  \<close>
  \<open>k\<close> counts the fields of the shortened format, \<open>sCap - 1\<close>.
\<close>

fun find_cap :: "string \<Rightarrow> nat \<Rightarrow> nat \<Rightarrow> nat option" where
  "find_cap fmt n 0 = None"
| "find_cap fmt n (Suc k) =
     (if calcsize (take (Suc k) fmt) \<le> n then Some (Suc k) else find_cap fmt n k)"

text \<open>\<^verbatim>\<open>bytes.decode('ascii')\<close> into a string.\<close>

definition decode_ascii_str :: "bytes \<Rightarrow> error + string" where
  "decode_ascii_str b =
     (if \<forall>x \<in> set b. uint x < 128 then Inr (map (\<lambda>x. char_of (uint x)) b)
      else Inl UnicodeError)"

text \<open>
  \<^verbatim>\<open>
  def decode(b):
      if len(b) < hLen and not star:
          for sCap in ...
      f = hStruct.unpack(b[:hLen])
      if star:
          return hTuple(*f, b[hLen:].decode('ascii'))
      else:
          return hTuple(*f)
  \<close>
\<close>

definition row_decode :: "tx_row \<Rightarrow> bytes \<Rightarrow> error + tx_packet" where
  "row_decode r b =
     (let fmt = row_format r; hl = calcsize fmt in
      case (if length b < hl \<and> \<not> row_star r
            then find_cap fmt (length b) (length fmt - 1) else None) of
        Some k \<Rightarrow>
          bindE (unpack_be (take k fmt) (take (calcsize (take k fmt)) b)) (hTuple r)
      | None \<Rightarrow>
          bindE (unpack_be fmt (take hl b)) (\<lambda>f.
            if row_star r
            then bindE (decode_ascii_str (drop hl b)) (\<lambda>s. hTuple r (f @ [VStr s]))
            else hTuple r f))"

text \<open>
  \<^verbatim>\<open>
  def encode(*a, **kw):
      t = hTuple(*a, **kw)
      return (code.to_bytes(1, 'big') + hStruct.pack(*t[:-1]) + t[-1].encode('ascii'))  # star
      return code.to_bytes(1, 'big') + hStruct.pack(*t)                                 # else
  \<close>
  \<^verbatim>\<open>int.to_bytes(1, 'big')\<close> raises \<^verbatim>\<open>OverflowError\<close> outside a byte; the codes of the tables
  are bytes.
\<close>

definition row_encode :: "tx_row \<Rightarrow> val list \<Rightarrow> error + bytes" where
  "row_encode r args =
     bindE (hTuple r args) (\<lambda>t.
       let vs = map snd (tx_vals t) in
       if row_star r then
         bindE (pack_be (row_format r) (butlast vs)) (\<lambda>h.
           case (if vs = [] then VNone else last vs) of
             VStr s \<Rightarrow> bindE (encode_ascii s) (\<lambda>n. Inr (word_of_int (row_code r) # h @ n))
           | _ \<Rightarrow> Inl AttributeError)
       else
         bindE (pack_be (row_format r) vs) (\<lambda>h. Inr (word_of_int (row_code r) # h)))"

text \<open>
  The class \<^verbatim>\<open>protocol\<close>:
  \<^verbatim>\<open>
  def decode(cls, b):
      cmd = cls.cmd_by_code[struct.unpack('B', b[:1])[0]]
      return cmd.decode(b[1:])
  def encode(cls, cmd, *a, **kw):
      return cls.cmd_by_name[cmd].encode(*a, **kw)
  \<close>
\<close>

definition tx_decode :: "revision \<Rightarrow> bytes \<Rightarrow> error + tx_packet" where
  "tx_decode rv b =
     (case b of
        [] \<Rightarrow> Inl StructError
      | c # rest \<Rightarrow>
          (case find (\<lambda>r. row_code r = unpack_B c) (table rv) of
             None \<Rightarrow> Inl KeyError
           | Some r \<Rightarrow> row_decode r rest))"

definition tx_encode :: "revision \<Rightarrow> string \<Rightarrow> val list \<Rightarrow> error + bytes" where
  "tx_encode rv cmd args =
     (case find (\<lambda>r. row_name r = cmd) (table rv) of
        None \<Rightarrow> Inl KeyError
      | Some r \<Rightarrow> row_encode r args)"

text \<open>Attribute access \<open>p.field\<close> and \<^verbatim>\<open>hasattr(p, field)\<close>.\<close>

definition field :: "tx_packet \<Rightarrow> string \<Rightarrow> val option" where
  "field p f = map_of (tx_vals p) f"

text \<open>The keys of \<^verbatim>\<open>protocol.ERRORS\<close>.\<close>

definition is_error_code :: "int \<Rightarrow> bool" where
  "is_error_code c = (0x80 \<le> c \<and> c \<le> 0x87)"

section \<open>The IEEE 1284.4 link (\<^verbatim>\<open>D4Link\<close>, \<^verbatim>\<open>TXChannel\<close>, \<^verbatim>\<open>Channel\<close>)\<close>

text \<open>
  The target of the link is a byte pipe with \<^verbatim>\<open>write(bytes)\<close> and \<^verbatim>\<open>read()\<close>; it is a
  parameter, two functions on the state \<open>'p\<close> of the pipe.
\<close>

record 'p byte_pipe =
  pipe_write :: "bytes \<Rightarrow> 'p \<Rightarrow> (error + int) \<times> 'p"
  pipe_read :: "'p \<Rightarrow> (error + bytes) \<times> 'p"

text \<open>
  A channel object: its name, its credit and the payload it received last. The channel
  objects live in the table \<^verbatim>\<open>D4Link.channels\<close> under their \<open>cid\<close>, and a channel is
  referred to by this key. The transaction channel is the entry \<open>(0, 0)\<close>; its command
  table and the command it received last are fields of the link state. \<open>received\<close> is the
  attribute \<^verbatim>\<open>D4Link._received\<close>, the bytes left over by \<^verbatim>\<open>retreive\<close>, empty until it is set.
\<close>

record channel =
  ch_name :: string
  ch_credit :: int
  ch_received :: "bytes option"

record 'p link =
  target :: 'p
  channels :: "int \<times> int \<Rightarrow> channel option"
  received :: bytes
  txn_protocol :: revision
  txn_received :: "tx_packet option"

definition txn_cid :: "int \<times> int" where
  "txn_cid = (0x00, 0x00)"

text \<open>\<^verbatim>\<open>D4Link.__init__\<close>: the table holds the transaction channel, with no credit.\<close>

definition init_link :: "'p \<Rightarrow> 'p link" where
  "init_link t =
     \<lparr>target = t,
      channels = [txn_cid \<mapsto> \<lparr>ch_name = ''(transaction channel)'', ch_credit = 0,
                                ch_received = None\<rparr>],
      received = [], txn_protocol = Rev0x20, txn_received = None\<rparr>"

text \<open>\<^verbatim>\<open>c = channels[key]; c.credit += n\<close>.\<close>

definition add_credit :: "int \<times> int \<Rightarrow> int \<Rightarrow> 'p link \<Rightarrow> (error + unit) \<times> 'p link" where
  "add_credit key n st =
     (case channels st key of
        None \<Rightarrow> (Inl KeyError, st)
      | Some c \<Rightarrow> (Inr (), st\<lparr>channels := (channels st)(key \<mapsto> c\<lparr>ch_credit := ch_credit c + n\<rparr>)\<rparr>))"

text \<open>
  \<^verbatim>\<open>
  def on_received(self, data, header=None):      # TXChannel
      try:
          p = self.protocol.decode(data)
      except:
          _log.warning(...)
      else:
          self._received = p
          if hasattr(p, 'addCredit'):
              c = self.link.channels[(p.sidP, p.sidS)]
              c.credit += p.addCredit
          if p.name == 'Error':
              _log.warning('TX: received: %s %s', p, self.protocol.ERRORS[p.errorCode])
  \<close>
  The \<^verbatim>\<open>else\<close> branch is outside the \<^verbatim>\<open>try\<close>: a missing channel or an unknown error code
  raises \<^verbatim>\<open>KeyError\<close>.
\<close>

definition txn_on_received :: "bytes \<Rightarrow> 'p link \<Rightarrow> (error + unit) \<times> 'p link" where
  "txn_on_received data st =
     (case tx_decode (txn_protocol st) data of
        Inl _ \<Rightarrow> (Inr (), st)
      | Inr p \<Rightarrow>
          (case (if field p ''addCredit'' = None then (Inr (), st\<lparr>txn_received := Some p\<rparr>)
                 else (case (field p ''sidP'', field p ''sidS'', field p ''addCredit'') of
                         (Some (VInt a), Some (VInt b), Some (VInt n)) \<Rightarrow>
                           add_credit (a, b) n (st\<lparr>txn_received := Some p\<rparr>)
                       | _ \<Rightarrow> (Inl KeyError, st\<lparr>txn_received := Some p\<rparr>))) of
             (Inl e, st1) \<Rightarrow> (Inl e, st1)
           | (Inr _, st1) \<Rightarrow>
               if tx_name p = ''Error'' then
                 (case field p ''errorCode'' of
                    Some (VInt c) \<Rightarrow> if is_error_code c then (Inr (), st1) else (Inl KeyError, st1)
                  | _ \<Rightarrow> (Inl KeyError, st1))
               else (Inr (), st1)))"

text \<open>
  \<^verbatim>\<open>
  def _on_received(self, header, payload): # dispatch to channels
      if header.cid not in self.channels:
          return
      c = self.channels[header.cid]
      c.credit += header.credit # piggybacked
      if payload:
          return c.on_received(payload, header)
  \<close>
  \<^verbatim>\<open>Channel.on_received\<close> stores the payload in the channel.
\<close>

definition on_received_link ::
  "D4PacketHeader \<Rightarrow> bytes \<Rightarrow> 'p link \<Rightarrow> (error + unit) \<times> 'p link"
where
  "on_received_link header payload st =
     (case channels st (cid header) of
        None \<Rightarrow> (Inr (), st)
      | Some c \<Rightarrow>
          (let c1 = c\<lparr>ch_credit := ch_credit c + hdr_credit header\<rparr>;
               st1 = st\<lparr>channels := (channels st)(cid header \<mapsto> c1)\<rparr> in
           if payload = [] then (Inr (), st1)
           else if cid header = txn_cid then txn_on_received payload st1
           else (Inr (), st\<lparr>channels :=
                   (channels st)(cid header \<mapsto> c1\<lparr>ch_received := Some payload\<rparr>)\<rparr>)))"

text \<open>Python slices \<open>b[:n]\<close> and \<open>b[n:]\<close>; a negative \<open>n\<close> counts from the end.\<close>

definition slice_to :: "int \<Rightarrow> 'a list \<Rightarrow> 'a list" where
  "slice_to n xs = (if 0 \<le> n then take (nat n) xs else take (length xs - nat (- n)) xs)"

definition slice_from :: "int \<Rightarrow> 'a list \<Rightarrow> 'a list" where
  "slice_from n xs = (if 0 \<le> n then drop (nat n) xs else drop (length xs - nat (- n)) xs)"

text \<open>
  \<^verbatim>\<open>
  def retreive(self, retries=6):
      rest = getattr(self, '_received', b'')
      for i in range(1 + retries):
          resp = self.target.read()
          if resp:
              rest += resp
              header, payload = self.protocol.decode(rest)
              if len(payload) < header.payload_length:
                  continue
              payload, rest = payload[:header.payload_length], payload[header.payload_length:]
              self._received = rest
              return self._on_received(header, payload)
  \<close>
  \<open>n\<close> counts the reads that remain. Every call of \<^verbatim>\<open>on_received\<close> returns \<^verbatim>\<open>None\<close>, so the
  result carries no value.
\<close>

fun retreive_loop ::
  "'p byte_pipe \<Rightarrow> nat \<Rightarrow> bytes \<Rightarrow> 'p link \<Rightarrow> (error + unit) \<times> 'p link"
where
  "retreive_loop io 0 rest st = (Inr (), st)"
| "retreive_loop io (Suc n) rest st =
     (case pipe_read io (target st) of
        (Inl e, t) \<Rightarrow> (Inl e, st\<lparr>target := t\<rparr>)
      | (Inr resp, t) \<Rightarrow>
          if resp = [] then retreive_loop io n rest (st\<lparr>target := t\<rparr>)
          else
            (case d4_decode (rest @ resp) of
               Inl e \<Rightarrow> (Inl e, st\<lparr>target := t\<rparr>)
             | Inr (header, payload) \<Rightarrow>
                 if int (length payload) < payload_length header
                 then retreive_loop io n (rest @ resp) (st\<lparr>target := t\<rparr>)
                 else on_received_link header (slice_to (payload_length header) payload)
                        (st\<lparr>target := t,
                            received := slice_from (payload_length header) payload\<rparr>)))"

definition retreive :: "'p byte_pipe \<Rightarrow> nat \<Rightarrow> 'p link \<Rightarrow> (error + unit) \<times> 'p link" where
  "retreive io retries st = retreive_loop io (1 + retries) (received st) st"

text \<open>
  The part of \<^verbatim>\<open>D4Link.send\<close> after the credit check, which is all of it when
  \<^verbatim>\<open>check=False\<close>:
  \<^verbatim>\<open>
  channel.credit -= cost
  b = self.protocol.encode(payload, *channel.cid, credit, control)
  return self.target.write(b)
  \<close>
\<close>

definition send_dispatch ::
  "'p byte_pipe \<Rightarrow> bytes \<Rightarrow> int \<times> int \<Rightarrow> int \<Rightarrow> int \<Rightarrow> int \<Rightarrow> 'p link \<Rightarrow> (error + int) \<times> 'p link"
where
  "send_dispatch io payload key credit control cost st =
     (case channels st key of
        None \<Rightarrow> (Inl KeyError, st)
      | Some c \<Rightarrow>
          (let st1 = st\<lparr>channels := (channels st)(key \<mapsto> c\<lparr>ch_credit := ch_credit c - cost\<rparr>)\<rparr> in
           case d4_encode payload (fst key) (snd key) credit control of
             Inl e \<Rightarrow> (Inl e, st1)
           | Inr b \<Rightarrow>
               (case pipe_write io b (target st1) of (r, t) \<Rightarrow> (r, st1\<lparr>target := t\<rparr>))))"

text \<open>
  The loop of \<^verbatim>\<open>TXChannel.__call__\<close>:
  \<^verbatim>\<open>
  for r in range(8):
      self.link.retreive()
      if self._received:
          p = self._received
          if p.name == cmd + 'Reply':
              return p
  \<close>
  A named tuple is true when it has a field.
\<close>

fun txn_wait ::
  "'p byte_pipe \<Rightarrow> string \<Rightarrow> nat \<Rightarrow> 'p link \<Rightarrow> (error + tx_packet option) \<times> 'p link"
where
  "txn_wait io cmd 0 st = (Inr None, st)"
| "txn_wait io cmd (Suc n) st =
     (case retreive io 6 st of
        (Inl e, st1) \<Rightarrow> (Inl e, st1)
      | (Inr _, st1) \<Rightarrow>
          (case txn_received st1 of
             None \<Rightarrow> txn_wait io cmd n st1
           | Some p \<Rightarrow>
               if tx_vals p \<noteq> [] \<and> tx_name p = cmd @ ''Reply'' then (Inr (Some p), st1)
               else txn_wait io cmd n st1))"

text \<open>
  \<^verbatim>\<open>TXChannel.__call__\<close> and \<^verbatim>\<open>TXChannel.send\<close>, with the send of the link as \<open>sendf\<close>:
  \<^verbatim>\<open>
  def __call__(self, cmd, *a, **kw):
      ok = self.send(cmd, *a, **kw)
      self._received = None
      for r in range(8): ...
  def send(self, cmd, *a, **kw):
      payload = self.protocol.encode(cmd, *a, **kw)
      _log.debug('TX: sending: %s', (self.protocol.decode(payload),))
      return self.link.send(payload, self, cost=0 if cmd == 'Init' else 1,
                            check=cmd not in ('CreditRequest', 'Credit'))
  \<close>
  The argument of the log call is evaluated: the payload is decoded again.
\<close>

definition txn_call_with ::
  "(bytes \<Rightarrow> 'p link \<Rightarrow> (error + int option) \<times> 'p link) \<Rightarrow> 'p byte_pipe \<Rightarrow> string \<Rightarrow> val list
     \<Rightarrow> 'p link \<Rightarrow> (error + tx_packet option) \<times> 'p link"
where
  "txn_call_with sendf io cmd args st =
     (case tx_encode (txn_protocol st) cmd args of
        Inl e \<Rightarrow> (Inl e, st)
      | Inr payload \<Rightarrow>
          (case tx_decode (txn_protocol st) payload of
             Inl e \<Rightarrow> (Inl e, st)
           | Inr _ \<Rightarrow>
               (case sendf payload st of
                  (Inl e, st1) \<Rightarrow> (Inl e, st1)
                | (Inr _, st1) \<Rightarrow> txn_wait io cmd 8 (st1\<lparr>txn_received := None\<rparr>))))"

text \<open>
  \<^verbatim>\<open>self.txn('CreditRequest', *channel.cid)\<close>: the command is sent with \<^verbatim>\<open>check=False\<close> and
  \<^verbatim>\<open>cost=1\<close>, so the send of the link is \<open>send_dispatch\<close>.
\<close>

definition credit_request ::
  "'p byte_pipe \<Rightarrow> int \<times> int \<Rightarrow> 'p link \<Rightarrow> (error + tx_packet option) \<times> 'p link"
where
  "credit_request io key st =
     txn_call_with
       (\<lambda>payload s. case send_dispatch io payload txn_cid 1 0 1 s of (r, s1) \<Rightarrow> (map_sum id Some r, s1))
       io ''CreditRequest'' [VInt (fst key), VInt (snd key)] st"

text \<open>
  \<^verbatim>\<open>
  def send(self, payload, channel, credit=1, control=0, cost=1, check=True):
      if check:
          for retry in range(3):
              if channel.credit >= cost: # TODO: retry in loop?
                  break
              self.txn('CreditRequest', *channel.cid)
          else:
              _log.error('Missing credits to send on %s', (channel.cid,))
              return
      channel.credit -= cost
      ...
  \<close>
  The loop returns whether it left by \<^verbatim>\<open>break\<close>; \<open>n\<close> counts the rounds that remain.
\<close>

fun credit_loop ::
  "'p byte_pipe \<Rightarrow> int \<times> int \<Rightarrow> int \<Rightarrow> nat \<Rightarrow> 'p link \<Rightarrow> (error + bool) \<times> 'p link"
where
  "credit_loop io key cost 0 st = (Inr False, st)"
| "credit_loop io key cost (Suc n) st =
     (case channels st key of
        None \<Rightarrow> (Inl KeyError, st)
      | Some c \<Rightarrow>
          if ch_credit c \<ge> cost then (Inr True, st)
          else
            (case credit_request io key st of
               (Inl e, st1) \<Rightarrow> (Inl e, st1)
             | (Inr _, st1) \<Rightarrow> credit_loop io key cost n st1))"

definition send ::
  "'p byte_pipe \<Rightarrow> bytes \<Rightarrow> int \<times> int \<Rightarrow> int \<Rightarrow> int \<Rightarrow> int \<Rightarrow> bool \<Rightarrow> 'p link
     \<Rightarrow> (error + int option) \<times> 'p link"
where
  "send io payload key credit control cost check st =
     (case (if check then credit_loop io key cost 3 st else (Inr True, st)) of
        (Inl e, st1) \<Rightarrow> (Inl e, st1)
      | (Inr False, st1) \<Rightarrow> (Inr None, st1)
      | (Inr True, st1) \<Rightarrow>
          (case send_dispatch io payload key credit control cost st1 of
             (r, st2) \<Rightarrow> (map_sum id Some r, st2)))"

text \<open>\<^verbatim>\<open>self.txn(cmd, *args)\<close> for every command.\<close>

definition txn_call ::
  "'p byte_pipe \<Rightarrow> string \<Rightarrow> val list \<Rightarrow> 'p link \<Rightarrow> (error + tx_packet option) \<times> 'p link"
where
  "txn_call io cmd args st =
     txn_call_with
       (\<lambda>payload. send io payload txn_cid 1 0 (if cmd = ''Init'' then 0 else 1)
                    (cmd \<noteq> ''CreditRequest'' \<and> cmd \<noteq> ''Credit''))
       io cmd args st"

text \<open>
  \<^verbatim>\<open>
  def _send_init(self, revision=0x20):
      res, rev = self.txn('Init', revision)
      if res == 0x00:
          return True
      elif res in (0x01, 0x0B):
          raise NotImplemented
      elif res == 0x02:
          if rev != revision:
              if rev == 0x10:
                  self.txn.protocol = protocol_0x10
              elif rev == 0x20:
                  self.txn.protocol = protocol_0x20
              else:
                  return
              return self._send_init(rev)
  \<close>
  The result is \<^verbatim>\<open>True\<close> or \<^verbatim>\<open>None\<close>. The function calls itself as long as the peer proposes
  the other revision; \<open>depth\<close> bounds the depth of the recursion, with \<^verbatim>\<open>RecursionError\<close>
  beyond. Without a reply the unpacking of \<^verbatim>\<open>None\<close> raises \<^verbatim>\<open>TypeError\<close>; so does
  \<^verbatim>\<open>raise NotImplemented\<close>, which is not an exception.
\<close>

fun send_init ::
  "'p byte_pipe \<Rightarrow> nat \<Rightarrow> int \<Rightarrow> 'p link \<Rightarrow> (error + bool option) \<times> 'p link"
where
  "send_init io 0 revision st = (Inl RecursionError, st)"
| "send_init io (Suc depth) revision st =
     (case txn_call io ''Init'' [VInt revision] st of
        (Inl e, st1) \<Rightarrow> (Inl e, st1)
      | (Inr None, st1) \<Rightarrow> (Inl TypeError, st1)
      | (Inr (Some p), st1) \<Rightarrow>
          (case map snd (tx_vals p) of
             [res, rv] \<Rightarrow>
               if res = VInt 0x00 then (Inr (Some True), st1)
               else if res = VInt 0x01 \<or> res = VInt 0x0B then (Inl TypeError, st1)
               else if res = VInt 0x02 then
                 (if rv \<noteq> VInt revision then
                    (if rv = VInt 0x10
                     then send_init io depth 0x10 (st1\<lparr>txn_protocol := Rev0x10\<rparr>)
                     else if rv = VInt 0x20
                     then send_init io depth 0x20 (st1\<lparr>txn_protocol := Rev0x20\<rparr>)
                     else (Inr None, st1))
                  else (Inr None, st1))
               else (Inr None, st1)
           | _ \<Rightarrow> (Inl ValueError, st1)))"

text \<open>
  A simulated pipe: the reads that will arrive, one for each \<^verbatim>\<open>read()\<close> and empty reads
  after them, and the log of what was written.
\<close>

definition scripted_pipe :: "(bytes list \<times> bytes list) byte_pipe" where
  "scripted_pipe =
     \<lparr>pipe_write = (\<lambda>b rw. (Inr (int (length b)), (fst rw, snd rw @ [b]))),
      pipe_read = (\<lambda>rw. case fst rw of
                          [] \<Rightarrow> (Inr [], rw)
                        | r # rs \<Rightarrow> (Inr r, (rs, snd rw)))\<rparr>"

text \<open>A link whose table holds the control channel \<^verbatim>\<open>EPSON-CTRL\<close> besides the transaction
  channel, as after \<^verbatim>\<open>get_channel('EPSON-CTRL', (0x02, 0x02))\<close>.\<close>

definition ctrl_link :: "'p \<Rightarrow> 'p link" where
  "ctrl_link t = (init_link t)\<lparr>channels := (channels (init_link t))
      ((0x02, 0x02) \<mapsto> \<lparr>ch_name = ''EPSON-CTRL'', ch_credit = 0, ch_received = None\<rparr>)\<rparr>"

text \<open>
  The states of such a link in which nothing has been left over by \<^verbatim>\<open>retreive\<close>: the reads
  to come and the packets written, the credit of the transaction channel and that of the
  control channel, and the command received last.
\<close>

definition ctrl_state ::
  "bytes list \<Rightarrow> bytes list \<Rightarrow> int \<Rightarrow> int \<Rightarrow> tx_packet option \<Rightarrow> (bytes list \<times> bytes list) link"
where
  "ctrl_state rs ws n k x =
     \<lparr>target = (rs, ws),
      channels = [txn_cid \<mapsto> \<lparr>ch_name = ''(transaction channel)'', ch_credit = n,
                                ch_received = None\<rparr>,
                  (0x02, 0x02) \<mapsto> \<lparr>ch_name = ''EPSON-CTRL'', ch_credit = k,
                                     ch_received = None\<rparr>],
      received = [], txn_protocol = Rev0x20, txn_received = x\<rparr>"

text \<open>\<open>k\<close> credit requests for a channel, one after the other.\<close>

fun credit_rounds ::
  "'p byte_pipe \<Rightarrow> int \<times> int \<Rightarrow> nat \<Rightarrow> 'p link \<Rightarrow> (error + unit) \<times> 'p link"
where
  "credit_rounds io key 0 st = (Inr (), st)"
| "credit_rounds io key (Suc k) st =
     (case credit_request io key st of
        (Inl e, st1) \<Rightarrow> (Inl e, st1)
      | (Inr _, st1) \<Rightarrow> credit_rounds io key k st1)"

section \<open>Properties of the codecs\<close>

lemma bindE_Inr [simp]: "bindE (Inr x) f = f x"
  by (simp add: bindE_def)

lemma bindE_Inl [simp]: "bindE (Inl e) f = Inl e"
  by (simp add: bindE_def)

lemma uint_byte_of_int: "0 \<le> x \<Longrightarrow> x \<le> 255 \<Longrightarrow> uint (word_of_int x :: byte) = x"
  by (simp add: uint_word_of_int)

lemma unpack_pack_H_be:
  assumes "0 \<le> x" "x \<le> 65535"
  shows "unpack_H_be (word_of_int (x div 256)) (word_of_int (x mod 256)) = x"
proof -
  have hi: "uint (word_of_int (x div 256) :: byte) = x div 256"
    using assms by (intro uint_byte_of_int) auto
  have lo: "uint (word_of_int (x mod 256) :: byte) = x mod 256"
    by (intro uint_byte_of_int) auto
  show ?thesis
    unfolding unpack_H_be_def hi lo by simp
qed

text \<open>
  C5. For unsigned-byte \<open>psid\<close>, \<open>ssid\<close>, \<open>credit\<close>, \<open>control\<close> and a payload of at most
  \<open>0xFFF9\<close> bytes, encoding succeeds and decoding the result gives back a header with
  exactly those fields, whose length field is \<open>6 + len(payload)\<close>, and the payload.
\<close>

theorem d4_decode_encode:
  assumes "0 \<le> p" "p \<le> 255" "0 \<le> s" "s \<le> 255" "0 \<le> cr" "cr \<le> 255" "0 \<le> ct" "ct \<le> 255"
    and "length payload \<le> 0xFFF9"
  shows "bindE (d4_encode payload p s cr ct) d4_decode =
           Inr (\<lparr>hdr_psid = p, hdr_ssid = s, hdr_length = 6 + int (length payload),
                 hdr_credit = cr, hdr_control = ct\<rparr>, payload)"
proof -
  let ?l = "6 + int (length payload)"
  have l: "0 \<le> ?l" "?l \<le> 65535"
    using assms(9) by simp_all
  have enc: "d4_encode payload p s cr ct =
      Inr ([word_of_int p, word_of_int s, word_of_int (?l div 256), word_of_int (?l mod 256),
            word_of_int cr, word_of_int ct] @ payload)"
    using assms(1-8) l
    by (simp add: d4_encode_def hStruct_pack_def pack_B_def pack_H_be_def hLen_def)
  show ?thesis
    unfolding enc
    using assms(1-8) unpack_pack_H_be [OF l]
    by (simp add: d4_decode_def hLen_def unpack_B_def uint_byte_of_int)
qed

theorem d4_decode_encode_witness:
  "bindE (d4_encode [0x64, 0x69, 0x01] 2 2 1 0) d4_decode =
     Inr (\<lparr>hdr_psid = 2, hdr_ssid = 2, hdr_length = 9, hdr_credit = 1, hdr_control = 0\<rparr>,
          [0x64, 0x69, 0x01])"
  using d4_decode_encode [of 2 2 1 0 "[0x64, 0x69, 0x01]"] by simp

section \<open>The factory wrap\<close>

lemma inv8_range: "0 \<le> inv8 c \<and> inv8 c \<le> 255"
  unfolding inv8_def by simp

lemma rot1_range: "0 \<le> rot1 c \<and> rot1 c \<le> 255"
proof -
  have a: "0 \<le> (drop_bit 1 c AND 0x7f)" "(drop_bit 1 c AND 0x7f) < 2 ^ 8"
    using AND_upper2' [of 127 "drop_bit 1 c"] by simp_all
  have b: "0 \<le> (push_bit 7 c AND 0x80)" "(push_bit 7 c AND 0x80) < 2 ^ 8"
    using AND_upper2' [of 128 "push_bit 7 c"] by simp_all
  have "rot1 c < 2 ^ 8"
    unfolding rot1_def using a b by (intro OR_upper) auto
  moreover have "0 \<le> rot1 c"
    unfolding rot1_def using a b by simp
  ultimately show ?thesis by simp
qed

lemma of_char_int_range: "0 \<le> (of_char c :: int) \<and> (of_char c :: int) \<le> 255"
proof -
  have "(of_char c :: int) = int (of_char c)"
    by (simp only: of_nat_of_char)
  then show ?thesis
    using nat_of_char_less_256 [of c] by linarith
qed

lemma encode_factory_char:
  assumes "0 \<le> rkey sp" "rkey sp \<le> 65535" "length p \<le> 65530" "(of_char outer :: nat) < 128"
  shows "encode sp (Factory [outer] [c]) p =
     Inr ([of_char outer, of_char outer]
        @ [word_of_int ((5 + int (length p)) mod 256), word_of_int ((5 + int (length p)) div 256)]
        @ [word_of_int (rkey sp mod 256), word_of_int (rkey sp div 256)]
        @ [word_of_int (of_char c), word_of_int (inv8 (of_char c)), word_of_int (rot1 (of_char c))]
        @ p)"
proof -
  have c: "pack_B (of_char c) = Inr [word_of_int (of_char c)]"
    using of_char_int_range [of c] by (simp add: pack_B_def)
  have i: "pack_B (inv8 (of_char c)) = Inr [word_of_int (inv8 (of_char c))]"
    using inv8_range [of "of_char c"] by (simp add: pack_B_def)
  have r: "pack_B (rot1 (of_char c)) = Inr [word_of_int (rot1 (of_char c))]"
    using rot1_range [of "of_char c"] by (simp add: pack_B_def)
  show ?thesis
    using assms by (simp add: c i r pack_H_le_def frame_def encode_ascii_def ascii_def)
qed

lemma encode_factory_bad_rkey:
  assumes "rkey sp < 0 \<or> 65535 < rkey sp"
  shows "encode sp (Factory ''|'' [c]) p = Inl StructError"
  using assms by (auto simp: pack_H_le_def)

lemma encode_factory_long:
  assumes "65530 < length p"
  shows "encode sp (Factory ''|'' [c]) p = Inl StructError"
proof (cases "0 \<le> rkey sp \<and> rkey sp \<le> 65535")
  case False
  then show ?thesis
    using encode_factory_bad_rkey [of sp c p] by auto
next
  case True
  have c: "pack_B (of_char c) = Inr [word_of_int (of_char c)]"
    using of_char_int_range [of c] by (simp add: pack_B_def)
  have i: "pack_B (inv8 (of_char c)) = Inr [word_of_int (inv8 (of_char c))]"
    using inv8_range [of "of_char c"] by (simp add: pack_B_def)
  have r: "pack_B (rot1 (of_char c)) = Inr [word_of_int (rot1 (of_char c))]"
    using rot1_range [of "of_char c"] by (simp add: pack_B_def)
  show ?thesis
    using True assms by (simp add: c i r pack_H_le_def frame_def encode_ascii_def)
qed

text \<open>
  C2. The length \<open>5+len(p)\<close> and the read key are \<open>u16\<close> fields of the frame. For every
  payload and read key that fit them (at most \<open>0xFFFA\<close> payload bytes, a read key in
  \<open>0..0xFFFF\<close>), \<open>encode(("|","A"), p)\<close> is
  \<open>"||" || (5+len(p)):u16 LE || rkey:u16 LE || 0x41 0xBE 0xA0 || p\<close>, \<open>encode(("|","B"), p)\<close>
  has the triplet \<open>0x42 0xBD 0x21\<close>, and for every inner character \<open>c\<close> the triplet is
  \<open>(c, ~c & 0xFF, ((c>>1)&0x7F)|((c<<7)&0x80))\<close>. For every other payload or read key
  \<^verbatim>\<open>struct.pack\<close> raises \<^verbatim>\<open>struct.error\<close> and no bytes are produced.
\<close>

theorem encode_factory_layout:
  "(0 \<le> rkey sp \<and> rkey sp \<le> 65535 \<and> length p \<le> 65530 \<longrightarrow>
      encode sp (Factory ''|'' ''A'') p =
           Inr (ascii ''||''
              @ [word_of_int ((5 + int (length p)) mod 256), word_of_int ((5 + int (length p)) div 256)]
              @ [word_of_int (rkey sp mod 256), word_of_int (rkey sp div 256)]
              @ [0x41, 0xBE, 0xA0] @ p)
       \<and> encode sp (Factory ''|'' ''B'') p =
           Inr (ascii ''||''
              @ [word_of_int ((5 + int (length p)) mod 256), word_of_int ((5 + int (length p)) div 256)]
              @ [word_of_int (rkey sp mod 256), word_of_int (rkey sp div 256)]
              @ [0x42, 0xBD, 0x21] @ p)
       \<and> encode sp (Factory ''|'' [c]) p =
           Inr (ascii ''||''
              @ [word_of_int ((5 + int (length p)) mod 256), word_of_int ((5 + int (length p)) div 256)]
              @ [word_of_int (rkey sp mod 256), word_of_int (rkey sp div 256)]
              @ [word_of_int (of_char c),
                 word_of_int ((NOT (of_char c)) AND 0xFF),
                 word_of_int ((drop_bit 1 (of_char c) AND 0x7F) OR (push_bit 7 (of_char c) AND 0x80))]
              @ p))
   \<and> (rkey sp < 0 \<or> 65535 < rkey sp \<or> 65530 < length p \<longrightarrow>
        encode sp (Factory ''|'' [c]) p = Inl StructError)"
proof -
  have g: "encode sp (Factory ''|'' [x]) p =
     Inr ([of_char CHR ''|'', of_char CHR ''|'']
        @ [word_of_int ((5 + int (length p)) mod 256), word_of_int ((5 + int (length p)) div 256)]
        @ [word_of_int (rkey sp mod 256), word_of_int (rkey sp div 256)]
        @ [word_of_int (of_char x), word_of_int (inv8 (of_char x)), word_of_int (rot1 (of_char x))]
        @ p)"
    if "0 \<le> rkey sp" "rkey sp \<le> 65535" "length p \<le> 65530" for x
    using that by (intro encode_factory_char) simp_all
  have a: "inv8 (of_char CHR ''A'') = 0xBE" "rot1 (of_char CHR ''A'') = 0xA0"
    by (simp_all add: inv8_def rot1_def)
  have b: "inv8 (of_char CHR ''B'') = 0xBD" "rot1 (of_char CHR ''B'') = 0x21"
    by (simp_all add: inv8_def rot1_def)
  have la: "encode sp (Factory ''|'' ''A'') p =
           Inr (ascii ''||''
              @ [word_of_int ((5 + int (length p)) mod 256), word_of_int ((5 + int (length p)) div 256)]
              @ [word_of_int (rkey sp mod 256), word_of_int (rkey sp div 256)]
              @ [0x41, 0xBE, 0xA0] @ p)"
    if "0 \<le> rkey sp" "rkey sp \<le> 65535" "length p \<le> 65530"
    unfolding g [OF that, of "CHR ''A''"] a by (simp add: ascii_def)
  have lb: "encode sp (Factory ''|'' ''B'') p =
           Inr (ascii ''||''
              @ [word_of_int ((5 + int (length p)) mod 256), word_of_int ((5 + int (length p)) div 256)]
              @ [word_of_int (rkey sp mod 256), word_of_int (rkey sp div 256)]
              @ [0x42, 0xBD, 0x21] @ p)"
    if "0 \<le> rkey sp" "rkey sp \<le> 65535" "length p \<le> 65530"
    unfolding g [OF that, of "CHR ''B''"] b by (simp add: ascii_def)
  have lc: "encode sp (Factory ''|'' [c]) p =
           Inr (ascii ''||''
              @ [word_of_int ((5 + int (length p)) mod 256), word_of_int ((5 + int (length p)) div 256)]
              @ [word_of_int (rkey sp mod 256), word_of_int (rkey sp div 256)]
              @ [word_of_int (of_char c),
                 word_of_int ((NOT (of_char c)) AND 0xFF),
                 word_of_int ((drop_bit 1 (of_char c) AND 0x7F) OR (push_bit 7 (of_char c) AND 0x80))]
              @ p)"
    if "0 \<le> rkey sp" "rkey sp \<le> 65535" "length p \<le> 65530"
    unfolding g [OF that, of c] by (simp add: ascii_def inv8_def rot1_def)
  have bad: "encode sp (Factory ''|'' [c]) p = Inl StructError"
    if "rkey sp < 0 \<or> 65535 < rkey sp \<or> 65530 < length p"
    using that encode_factory_bad_rkey [of sp c p] encode_factory_long [of p sp c] by blast
  show ?thesis
    using la lb lc bad by blast
qed

theorem encode_factory_layout_witness:
  "encode (default_spec\<lparr>rkey := 3\<rparr>) (Factory ''|'' ''A'') [0x05, 0x00] =
     Inr [0x7C, 0x7C, 0x07, 0x00, 0x03, 0x00, 0x41, 0xBE, 0xA0, 0x05, 0x00]
   \<and> encode (default_spec\<lparr>rkey := 3\<rparr>) (Factory ''|'' ''B'') [0x05, 0x00] =
     Inr [0x7C, 0x7C, 0x07, 0x00, 0x03, 0x00, 0x42, 0xBD, 0x21, 0x05, 0x00]
   \<and> encode (default_spec\<lparr>rkey := 0x10000\<rparr>) (Factory ''|'' ''A'') [0x05, 0x00] = Inl StructError"
  using encode_factory_layout [of "default_spec\<lparr>rkey := 3\<rparr>" "[0x05, 0x00]" "CHR ''A''"]
    encode_factory_layout [of "default_spec\<lparr>rkey := 0x10000\<rparr>" "[0x05, 0x00]" "CHR ''A''"]
  by (simp add: default_spec_def ascii_def)

text \<open>With a payload of \<open>0xFFFB\<close> bytes the length field would be \<open>0x10000\<close>, beyond the
  \<open>u16\<close> of the frame.\<close>

lemma encode_factory_long_payload:
  "encode default_spec (Factory ''|'' ''A'') (replicate 65531 0) = Inl StructError"
  by (simp add: default_spec_def pack_H_le_def pack_B_def inv8_def rot1_def frame_def
      encode_ascii_def)

section \<open>Reading the EEPROM\<close>

lemma is_hex_ascii: "is_hex c \<Longrightarrow> c < 128"
  by (auto simp: is_hex_def)

lemma hex_byte: "is_hex a \<Longrightarrow> is_hex b \<Longrightarrow> 0 \<le> hexval a * 16 + hexval b \<and> hexval a * 16 + hexval b \<le> 255"
  by (auto simp: is_hex_def hexval_def)

lemma is_hex_not_space: "is_hex c \<Longrightarrow> \<not> is_space c"
  by (auto simp: is_hex_def is_space_def)

lemma re_match_form:
  assumes "is_hex h1" "is_hex h2" "is_hex h3" "is_hex h4" "is_hex h5" "is_hex h6"
  shows "re_match_EE ([64, 66, 68, 67, 32, 80, 83, 32, 69, 69, 58] @ [h1, h2, h3, h4, h5, h6] @ [59] @ rest) = Some [h1, h2, h3, h4, h5, h6]"
  using assms by (simp add: is_space_def)

lemma parse_form:
  assumes "is_hex (uint h1)" "is_hex (uint h2)" "is_hex (uint h3)" "is_hex (uint h4)" "is_hex (uint h5)" "is_hex (uint h6)"
    and "n \<noteq> 1"
  shows "parse_reply n a (Some (ascii ''@BDC PS EE:'' @ [h1, h2, h3, h4, h5, h6] @ ascii '';'')) =
     (if hex_addr h1 h2 h3 h4 = a then Inr (hex_val h5 h6) else Inl AssertionError)"
proof -
  have dec: "decode_ascii (ascii ''@BDC PS EE:'' @ [h1, h2, h3, h4, h5, h6] @ ascii '';'') =
     Inr ([64, 66, 68, 67, 32, 80, 83, 32, 69, 69, 58] @ [uint h1, uint h2, uint h3, uint h4, uint h5, uint h6] @ [59] @ [])"
    using assms(1-6) by (simp add: decode_ascii_def ascii_def is_hex_ascii)
  have m: "re_match_EE ([64, 66, 68, 67, 32, 80, 83, 32, 69, 69, 58] @ [uint h1, uint h2, uint h3, uint h4, uint h5, uint h6] @ [59] @ []) = Some [uint h1, uint h2, uint h3, uint h4, uint h5, uint h6]"
    using assms(1-6) by (rule re_match_form)
  have fh: "fromhex [uint h1, uint h2, uint h3, uint h4, uint h5, uint h6] =
     Inr [word_of_int (hexval (uint h1) * 16 + hexval (uint h2)), word_of_int (hexval (uint h3) * 16 + hexval (uint h4)), word_of_int (hexval (uint h5) * 16 + hexval (uint h6))]"
    using assms(1-6) by simp
  have u1: "uint (word_of_int (hexval (uint h1) * 16 + hexval (uint h2)) :: byte) = hexval (uint h1) * 16 + hexval (uint h2)"
    using hex_byte [OF assms(1) assms(2)] by (intro uint_byte_of_int) simp_all
  have u2: "uint (word_of_int (hexval (uint h3) * 16 + hexval (uint h4)) :: byte) = hexval (uint h3) * 16 + hexval (uint h4)"
    using hex_byte [OF assms(3) assms(4)] by (intro uint_byte_of_int) simp_all
  have u3: "uint (word_of_int (hexval (uint h5) * 16 + hexval (uint h6)) :: byte) = hexval (uint h5) * 16 + hexval (uint h6)"
    using hex_byte [OF assms(5) assms(6)] by (intro uint_byte_of_int) simp_all
  have up: "unpack_addr_val n [word_of_int (hexval (uint h1) * 16 + hexval (uint h2)), word_of_int (hexval (uint h3) * 16 + hexval (uint h4)), word_of_int (hexval (uint h5) * 16 + hexval (uint h6))]
      = Inr (hex_addr h1 h2 h3 h4, hex_val h5 h6)"
    using assms(7)
    by (simp only: unpack_addr_val_def unpack_H_be_def unpack_B_def u1 u2 u3 hex_addr_def hex_val_def list.case if_False)
  show ?thesis
    unfolding parse_reply_def by (simp only: option.case dec bindE_Inr m fh up prod.case)
qed

lemma unpack3_rlen1: "length bs = 3 \<Longrightarrow> unpack_addr_val 1 bs = Inl StructError"
  by (auto simp: unpack_addr_val_def split: list.splits)

lemma match_EE_len: "match_EE t = Some g \<Longrightarrow> length g = 6"
  by (induction t rule: match_EE.induct) (auto split: if_splits)

lemma re_match_EE_len: "re_match_EE t = Some g \<Longrightarrow> length g = 6"
  by (induction t rule: re_match_EE.induct) (auto split: option.splits if_splits dest: match_EE_len)

lemma fromhex_len: "fromhex g = Inr bs \<Longrightarrow> length g = 2 * length bs"
  by (induction g arbitrary: bs rule: fromhex.induct) (auto simp: bindE_def split: if_splits sum.splits)

lemma parse_rlen1: "parse_reply 1 a r \<noteq> Inr v"
proof
  assume p: "parse_reply 1 a r = Inr v"
  then obtain b t g bs where "r = Some b" "decode_ascii b = Inr t" "re_match_EE t = Some g" "fromhex g = Inr bs"
     and u: "unpack_addr_val 1 bs \<noteq> Inl StructError"
    by (auto simp: parse_reply_def bindE_def split: option.splits sum.splits)
  then have "length bs = 3" using re_match_EE_len fromhex_len by fastforce
  with u show False using unpack3_rlen1 by blast
qed


lemma read_eeprom_single:
  assumes "pack_addr (rlen sp) a = Inr pa" "encode sp (Factory ''|'' ''A'') pa = Inr m"
    and "chan m d = (Inr r, d')"
  shows "read_eeprom chan sp [a] d = (Inr [read_slot (rlen sp) a r], d')"
  using assms by (simp add: read_eeprom_def)

lemma read_slot_fail: "parse_reply n a r = Inl e \<Longrightarrow> read_slot n a r = (a, None)"
  by (simp add: read_slot_def)

lemma read_slot_rlen1: "read_slot 1 a r = (a, None)"
  using parse_rlen1 [of a r] by (cases "parse_reply 1 a r") (auto simp: read_slot_def)

lemma mapE_length: "mapE f xs = Inr ys \<Longrightarrow> length ys = length xs"
  by (induction xs arbitrary: ys) (auto simp: bindE_def split: sum.splits)

lemma exchange_length: "exchange chan ms d = (Inr rs, d') \<Longrightarrow> length rs = length ms"
  by (induction ms arbitrary: rs d) (auto split: prod.splits sum.splits)

lemma read_loop_exchange:
  assumes "mapE (encode sp (Factory ''|'' ''A'')) (map snd xs) = Inr ms"
    and "exchange chan ms d = (Inr rs, d')"
  shows "read_loop chan sp xs d = (Inr (map2 (\<lambda>x r. read_slot (rlen sp) (fst x) r) xs rs), d')"
  using assms
proof (induction xs arbitrary: ms rs d)
  case Nil
  then show ?case by auto
next
  case (Cons x xs)
  obtain a pl where x: "x = (a, pl)" by (cases x)
  from Cons.prems(1) x obtain m ms' where
    m: "encode sp (Factory ''|'' ''A'') pl = Inr m"
    and ms': "mapE (encode sp (Factory ''|'' ''A'')) (map snd xs) = Inr ms'"
    and ms: "ms = m # ms'"
    by (auto simp: bindE_def simp del: encode.simps split: sum.splits)
  from Cons.prems(2) ms obtain r d1 rs' where
    c: "chan m d = (Inr r, d1)" and ex: "exchange chan ms' d1 = (Inr rs', d')"
    and rs: "rs = r # rs'"
    by (auto split: prod.splits sum.splits)
  from Cons.IH [OF ms' ex] x m c rs show ?case by (simp del: encode.simps)
qed

lemma read_slot_fst: "fst (read_slot n a r) = a"
  by (simp add: read_slot_def split: sum.splits)

lemma match_EE_shape:
  "match_EE t = Some g \<Longrightarrow>
   \<exists>w c1 c2 c3 c4 c5 c6 post.
     t = w # 69 # 69 # 58 # c1 # c2 # c3 # c4 # c5 # c6 # 59 # post
     \<and> is_space w \<and> is_hex c1 \<and> is_hex c2 \<and> is_hex c3 \<and> is_hex c4 \<and> is_hex c5 \<and> is_hex c6
     \<and> g = [c1, c2, c3, c4, c5, c6]"
  by (induction t rule: match_EE.induct) (auto split: if_splits)

lemma re_match_EE_shape:
  "re_match_EE t = Some g \<Longrightarrow>
   \<exists>pre w c1 c2 c3 c4 c5 c6 post.
     t = pre @ w # 69 # 69 # 58 # c1 # c2 # c3 # c4 # c5 # c6 # 59 # post
     \<and> 10 \<notin> set pre
     \<and> is_space w \<and> is_hex c1 \<and> is_hex c2 \<and> is_hex c3 \<and> is_hex c4 \<and> is_hex c5 \<and> is_hex c6
     \<and> g = [c1, c2, c3, c4, c5, c6]"
proof (induction t)
  case Nil
  then show ?case by simp
next
  case (Cons c cs)
  show ?case
  proof (cases "match_EE (c # cs)")
    case (Some g')
    with Cons.prems have "g' = g" by simp
    with Some match_EE_shape [of "c # cs" g] obtain w c1 c2 c3 c4 c5 c6 post where
      "c # cs = [] @ w # 69 # 69 # 58 # c1 # c2 # c3 # c4 # c5 # c6 # 59 # post
       \<and> 10 \<notin> set ([] :: int list)
       \<and> is_space w \<and> is_hex c1 \<and> is_hex c2 \<and> is_hex c3 \<and> is_hex c4 \<and> is_hex c5 \<and> is_hex c6
       \<and> g = [c1, c2, c3, c4, c5, c6]"
      by auto
    then show ?thesis by blast
  next
    case None
    with Cons.prems have ne: "c \<noteq> 10" and rec: "re_match_EE cs = Some g"
      by (auto split: if_splits)
    from Cons.IH [OF rec] obtain pre w c1 c2 c3 c4 c5 c6 post where
      "cs = pre @ w # 69 # 69 # 58 # c1 # c2 # c3 # c4 # c5 # c6 # 59 # post"
      "10 \<notin> set pre"
      "is_space w \<and> is_hex c1 \<and> is_hex c2 \<and> is_hex c3 \<and> is_hex c4 \<and> is_hex c5 \<and> is_hex c6
       \<and> g = [c1, c2, c3, c4, c5, c6]"
      by blast
    with ne have
      "c # cs = (c # pre) @ w # 69 # 69 # 58 # c1 # c2 # c3 # c4 # c5 # c6 # 59 # post
       \<and> 10 \<notin> set (c # pre)
       \<and> is_space w \<and> is_hex c1 \<and> is_hex c2 \<and> is_hex c3 \<and> is_hex c4 \<and> is_hex c5 \<and> is_hex c6
       \<and> g = [c1, c2, c3, c4, c5, c6]"
      by simp
    then show ?thesis by blast
  qed
qed

lemma fromhex_6:
  assumes "is_hex c1" "is_hex c2" "is_hex c3" "is_hex c4" "is_hex c5" "is_hex c6"
  shows "fromhex [c1, c2, c3, c4, c5, c6] =
     Inr [word_of_int (hexval c1 * 16 + hexval c2), word_of_int (hexval c3 * 16 + hexval c4),
          word_of_int (hexval c5 * 16 + hexval c6)]"
  using assms by simp

lemma unpack_hex_3:
  assumes "is_hex c1" "is_hex c2" "is_hex c3" "is_hex c4" "is_hex c5" "is_hex c6" "n \<noteq> 1"
  shows "unpack_addr_val n
     [word_of_int (hexval c1 * 16 + hexval c2), word_of_int (hexval c3 * 16 + hexval c4),
      word_of_int (hexval c5 * 16 + hexval c6)]
   = Inr ((hexval c1 * 16 + hexval c2) * 256 + (hexval c3 * 16 + hexval c4),
          hexval c5 * 16 + hexval c6)"
proof -
  have u1: "uint (word_of_int (hexval c1 * 16 + hexval c2) :: byte) = hexval c1 * 16 + hexval c2"
    using hex_byte [OF assms(1) assms(2)] by (intro uint_byte_of_int) simp_all
  have u2: "uint (word_of_int (hexval c3 * 16 + hexval c4) :: byte) = hexval c3 * 16 + hexval c4"
    using hex_byte [OF assms(3) assms(4)] by (intro uint_byte_of_int) simp_all
  have u3: "uint (word_of_int (hexval c5 * 16 + hexval c6) :: byte) = hexval c5 * 16 + hexval c6"
    using hex_byte [OF assms(5) assms(6)] by (intro uint_byte_of_int) simp_all
  show ?thesis
    using assms(7)
    by (simp only: unpack_addr_val_def unpack_H_be_def unpack_B_def u1 u2 u3 list.case if_False)
qed

lemma parse_reply_shape:
  assumes "parse_reply n a r = Inr v"
  shows "\<exists>b pre w c1 c2 c3 c4 c5 c6 post.
           r = Some b \<and> (\<forall>x \<in> set b. uint x < 128)
         \<and> map uint b = pre @ w # 69 # 69 # 58 # c1 # c2 # c3 # c4 # c5 # c6 # 59 # post
         \<and> 10 \<notin> set pre \<and> is_space w
         \<and> is_hex c1 \<and> is_hex c2 \<and> is_hex c3 \<and> is_hex c4 \<and> is_hex c5 \<and> is_hex c6
         \<and> n \<noteq> 1
         \<and> (hexval c1 * 16 + hexval c2) * 256 + (hexval c3 * 16 + hexval c4) = a
         \<and> v = hexval c5 * 16 + hexval c6"
proof -
  from assms obtain b where b: "r = Some b"
    by (cases r) (auto simp: parse_reply_def)
  from assms b have asc: "\<forall>x \<in> set b. uint x < 128"
    by (auto simp: parse_reply_def decode_ascii_def split: if_splits)
  then have dec: "decode_ascii b = Inr (map uint b)"
    by (simp add: decode_ascii_def)
  from assms b dec obtain g where g: "re_match_EE (map uint b) = Some g"
    by (cases "re_match_EE (map uint b)") (auto simp: parse_reply_def)
  from re_match_EE_shape [OF g] obtain pre w c1 c2 c3 c4 c5 c6 post where
    t: "map uint b = pre @ w # 69 # 69 # 58 # c1 # c2 # c3 # c4 # c5 # c6 # 59 # post"
    and pre: "10 \<notin> set pre" and w: "is_space w"
    and h: "is_hex c1" "is_hex c2" "is_hex c3" "is_hex c4" "is_hex c5" "is_hex c6"
    and gg: "g = [c1, c2, c3, c4, c5, c6]"
    by blast
  have n: "n \<noteq> 1"
    using assms parse_rlen1 [of a r v] by auto
  from assms b dec g gg fromhex_6 [OF h] unpack_hex_3 [OF h n]
  have "(hexval c1 * 16 + hexval c2) * 256 + (hexval c3 * 16 + hexval c4) = a
      \<and> v = hexval c5 * 16 + hexval c6"
    by (auto simp: parse_reply_def split: if_splits)
  with b asc t pre w h n show ?thesis by blast
qed

lemma read_slot_Some_shape:
  assumes "snd (read_slot n a r) = Some v"
  shows "\<exists>b pre w c1 c2 c3 c4 c5 c6 post.
           r = Some b \<and> (\<forall>x \<in> set b. uint x < 128)
         \<and> map uint b = pre @ w # 69 # 69 # 58 # c1 # c2 # c3 # c4 # c5 # c6 # 59 # post
         \<and> 10 \<notin> set pre \<and> is_space w
         \<and> is_hex c1 \<and> is_hex c2 \<and> is_hex c3 \<and> is_hex c4 \<and> is_hex c5 \<and> is_hex c6
         \<and> n \<noteq> 1
         \<and> (hexval c1 * 16 + hexval c2) * 256 + (hexval c3 * 16 + hexval c4) = a
         \<and> v = hexval c5 * 16 + hexval c6"
proof -
  from assms have "parse_reply n a r = Inr v"
    by (cases "parse_reply n a r") (auto simp: read_slot_def)
  then show ?thesis by (rule parse_reply_shape)
qed

lemma read_slot_form:
  assumes "is_hex (uint h1)" "is_hex (uint h2)" "is_hex (uint h3)" "is_hex (uint h4)"
    "is_hex (uint h5)" "is_hex (uint h6)" "n \<noteq> 1"
  shows "snd (read_slot n a (Some (ascii ''@BDC PS EE:'' @ [h1, h2, h3, h4, h5, h6] @ ascii '';'')))
     = (if hex_addr h1 h2 h3 h4 = a then Some (hex_val h5 h6) else None)"
  unfolding read_slot_def parse_form [OF assms] by simp


lemma map_snd_zip_eq: "length ys = length xs \<Longrightarrow> map snd (zip xs ys) = ys"
  by (simp add: map_snd_zip)

text \<open>
  C6. A request for the addresses \<open>req\<close> (the given ones, or the whole range
  \<open>mem_low..mem_high\<close> when none is given) whose commands are answered, in order, by the
  replies \<open>rs\<close>. The result has one slot for every address, in the order of the request,
  and slot \<open>i\<close> holds the address \<open>req ! i\<close>. With a two-byte address format, a reply
  \<^verbatim>\<open>@BDC PS EE:<6 hex chars>;\<close> to the \<open>i\<close>-th command gives the value when the echoed address
  is \<open>req ! i\<close> and \<open>None\<close> when it is not. A slot holds a value only if its reply is ASCII,
  contains on one line a whitespace character followed by \<^verbatim>\<open>EE:\<close>, six hexadecimal
  characters and \<^verbatim>\<open>;\<close>, the address format has two bytes, the first four characters
  give the address of the slot and the last two the value: every other reply (none, not
  ASCII, not of this form, another address) gives \<open>None\<close>. With \<open>rlen = 1\<close> the three bytes
  of the group never fit the format \<^verbatim>\<open>>BB\<close>, so every slot is \<open>None\<close>.
\<close>

theorem read_eeprom_reply:
  assumes "req = (if addrs = [] then [mem_low sp..mem_high sp] else addrs)"
    and "mapE (pack_addr (rlen sp)) req = Inr ps"
    and "mapE (encode sp (Factory ''|'' ''A'')) ps = Inr ms"
    and "exchange chan ms d = (Inr rs, d')"
  shows "\<exists>res. read_eeprom chan sp addrs d = (Inr res, d')
       \<and> length res = length req \<and> length rs = length req
       \<and> (\<forall>i < length req.
            fst (res ! i) = req ! i
          \<and> (\<forall>h1 h2 h3 h4 h5 h6.
                rlen sp \<noteq> 1 \<and> is_hex (uint h1) \<and> is_hex (uint h2) \<and> is_hex (uint h3)
                \<and> is_hex (uint h4) \<and> is_hex (uint h5) \<and> is_hex (uint h6)
                \<and> rs ! i = Some (ascii ''@BDC PS EE:'' @ [h1, h2, h3, h4, h5, h6] @ ascii '';'')
              \<longrightarrow> snd (res ! i) =
                    (if hex_addr h1 h2 h3 h4 = req ! i then Some (hex_val h5 h6) else None))
          \<and> (\<forall>v. snd (res ! i) = Some v \<longrightarrow>
                (\<exists>b pre w c1 c2 c3 c4 c5 c6 post.
                    rs ! i = Some b \<and> (\<forall>x \<in> set b. uint x < 128)
                  \<and> map uint b = pre @ w # 69 # 69 # 58 # c1 # c2 # c3 # c4 # c5 # c6 # 59 # post
                  \<and> 10 \<notin> set pre \<and> is_space w
                  \<and> is_hex c1 \<and> is_hex c2 \<and> is_hex c3 \<and> is_hex c4 \<and> is_hex c5 \<and> is_hex c6
                  \<and> rlen sp \<noteq> 1
                  \<and> (hexval c1 * 16 + hexval c2) * 256 + (hexval c3 * 16 + hexval c4) = req ! i
                  \<and> v = hexval c5 * 16 + hexval c6))
          \<and> (rlen sp = 1 \<longrightarrow> snd (res ! i) = None))"
proof -
  define res where "res = map2 (\<lambda>x r. read_slot (rlen sp) (fst x) r) (zip req ps) rs"
  have lps: "length ps = length req"
    using assms(2) by (rule mapE_length)
  have lms: "length ms = length req"
    using mapE_length [OF assms(3)] lps by simp
  have lrs: "length rs = length req"
    using exchange_length [OF assms(4)] lms by simp
  have sn: "map snd (zip req ps) = ps"
    using lps by (rule map_snd_zip_eq)
  have "read_loop chan sp (zip req ps) d = (Inr res, d')"
    unfolding res_def
    by (rule read_loop_exchange [where ms = ms]) (simp_all only: sn assms(3) assms(4))
  then have rd: "read_eeprom chan sp addrs d = (Inr res, d')"
    using assms(1) assms(2) by (simp add: read_eeprom_def Let_def)
  have lres: "length res = length req"
    using lps lrs by (simp add: res_def)
  have nth: "res ! i = read_slot (rlen sp) (req ! i) (rs ! i)" if "i < length req" for i
    using that lps lrs by (simp add: res_def)
  have slot: "\<forall>i < length req. fst (res ! i) = req ! i
          \<and> (\<forall>h1 h2 h3 h4 h5 h6.
                rlen sp \<noteq> 1 \<and> is_hex (uint h1) \<and> is_hex (uint h2) \<and> is_hex (uint h3)
                \<and> is_hex (uint h4) \<and> is_hex (uint h5) \<and> is_hex (uint h6)
                \<and> rs ! i = Some (ascii ''@BDC PS EE:'' @ [h1, h2, h3, h4, h5, h6] @ ascii '';'')
              \<longrightarrow> snd (res ! i) =
                    (if hex_addr h1 h2 h3 h4 = req ! i then Some (hex_val h5 h6) else None))
          \<and> (\<forall>v. snd (res ! i) = Some v \<longrightarrow>
                (\<exists>b pre w c1 c2 c3 c4 c5 c6 post.
                    rs ! i = Some b \<and> (\<forall>x \<in> set b. uint x < 128)
                  \<and> map uint b = pre @ w # 69 # 69 # 58 # c1 # c2 # c3 # c4 # c5 # c6 # 59 # post
                  \<and> 10 \<notin> set pre \<and> is_space w
                  \<and> is_hex c1 \<and> is_hex c2 \<and> is_hex c3 \<and> is_hex c4 \<and> is_hex c5 \<and> is_hex c6
                  \<and> rlen sp \<noteq> 1
                  \<and> (hexval c1 * 16 + hexval c2) * 256 + (hexval c3 * 16 + hexval c4) = req ! i
                  \<and> v = hexval c5 * 16 + hexval c6))
          \<and> (rlen sp = 1 \<longrightarrow> snd (res ! i) = None)"
  proof (intro conjI allI impI)
    fix i
    assume i: "i < length req"
    show "fst (res ! i) = req ! i"
      unfolding nth [OF i] by (rule read_slot_fst)
  next
    fix i h1 h2 h3 h4 h5 h6
    assume i: "i < length req"
    assume h: "rlen sp \<noteq> 1 \<and> is_hex (uint h1) \<and> is_hex (uint h2) \<and> is_hex (uint h3)
                \<and> is_hex (uint h4) \<and> is_hex (uint h5) \<and> is_hex (uint h6)
                \<and> rs ! i = Some (ascii ''@BDC PS EE:'' @ [h1, h2, h3, h4, h5, h6] @ ascii '';'')"
    then have r: "rs ! i = Some (ascii ''@BDC PS EE:'' @ [h1, h2, h3, h4, h5, h6] @ ascii '';'')"
      by simp
    show "snd (res ! i) = (if hex_addr h1 h2 h3 h4 = req ! i then Some (hex_val h5 h6) else None)"
      unfolding nth [OF i] r
      using h by (intro read_slot_form) simp_all
  next
    fix i v
    assume i: "i < length req"
    assume "snd (res ! i) = Some v"
    then have "snd (read_slot (rlen sp) (req ! i) (rs ! i)) = Some v"
      unfolding nth [OF i] .
    then show "\<exists>b pre w c1 c2 c3 c4 c5 c6 post.
                    rs ! i = Some b \<and> (\<forall>x \<in> set b. uint x < 128)
                  \<and> map uint b = pre @ w # 69 # 69 # 58 # c1 # c2 # c3 # c4 # c5 # c6 # 59 # post
                  \<and> 10 \<notin> set pre \<and> is_space w
                  \<and> is_hex c1 \<and> is_hex c2 \<and> is_hex c3 \<and> is_hex c4 \<and> is_hex c5 \<and> is_hex c6
                  \<and> rlen sp \<noteq> 1
                  \<and> (hexval c1 * 16 + hexval c2) * 256 + (hexval c3 * 16 + hexval c4) = req ! i
                  \<and> v = hexval c5 * 16 + hexval c6"
      by (rule read_slot_Some_shape)
  next
    fix i
    assume i: "i < length req"
    assume "rlen sp = 1"
    then show "snd (res ! i) = None"
      unfolding nth [OF i] by (simp add: read_slot_rlen1)
  qed
  show ?thesis
    by (intro exI [of _ res] conjI) (rule rd lres lrs slot)+
qed



lemma len2_nth: "length xs = 2 \<Longrightarrow> xs = [xs ! 0, xs ! 1]"
  by (cases xs; cases "tl xs") auto

text \<open>
  With \<open>rlen = 2\<close>, the addresses 5 and 6 answered by \<^verbatim>\<open>@BDC PS EE:00050F;\<close> and
  \<^verbatim>\<open>@BDC PS EE:000710;\<close> (which echoes address 7) yield \<open>[(5, 0x0F), (6, None)]\<close>.
\<close>

theorem read_eeprom_reply_witness:
  "read_eeprom scripted default_spec [5, 6]
     [Some (ascii ''@BDC PS EE:00050F;''), Some (ascii ''@BDC PS EE:000710;'')]
   = (Inr [(5, Some 0x0F), (6, None)], [])"
proof -
  have p: "mapE (pack_addr (rlen default_spec)) [5, 6] = Inr [[5, 0], [6, 0]]"
    by (simp add: pack_addr_def default_spec_def pack_H_le_def bindE_def)
  have e: "mapE (encode default_spec (Factory ''|'' ''A'')) [[5, 0], [6, 0]] =
      Inr [[0x7C, 0x7C, 0x07, 0x00, 0x00, 0x00, 0x41, 0xBE, 0xA0, 0x05, 0x00],
           [0x7C, 0x7C, 0x07, 0x00, 0x00, 0x00, 0x41, 0xBE, 0xA0, 0x06, 0x00]]"
    by (simp add: default_spec_def pack_H_le_def pack_B_def inv8_def rot1_def frame_def
        encode_ascii_def ascii_def bindE_def)
  have x: "exchange scripted
      [[0x7C, 0x7C, 0x07, 0x00, 0x00, 0x00, 0x41, 0xBE, 0xA0, 0x05, 0x00],
       [0x7C, 0x7C, 0x07, 0x00, 0x00, 0x00, 0x41, 0xBE, 0xA0, 0x06, 0x00]]
      [Some (ascii ''@BDC PS EE:00050F;''), Some (ascii ''@BDC PS EE:000710;'')]
    = (Inr [Some (ascii ''@BDC PS EE:00050F;''), Some (ascii ''@BDC PS EE:000710;'')], [])"
    by (simp add: scripted_def)
  have q: "[5, 6] = (if [5, 6] = [] then [mem_low default_spec..mem_high default_spec] else [5, 6 :: int])"
    by simp
  from read_eeprom_reply [where addrs = "[5, 6]" and req = "[5, 6]" and sp = default_spec
      and chan = scripted, OF q p e x]
  obtain res where rd: "read_eeprom scripted default_spec [5, 6]
        [Some (ascii ''@BDC PS EE:00050F;''), Some (ascii ''@BDC PS EE:000710;'')] = (Inr res, [])"
    and len: "length res = length [5 :: int, 6]"
    and slots: "\<forall>i < length [5 :: int, 6]. fst (res ! i) = [5, 6] ! i
          \<and> (\<forall>h1 h2 h3 h4 h5 h6.
                rlen default_spec \<noteq> 1 \<and> is_hex (uint h1) \<and> is_hex (uint h2) \<and> is_hex (uint h3)
                \<and> is_hex (uint h4) \<and> is_hex (uint h5) \<and> is_hex (uint h6)
                \<and> [Some (ascii ''@BDC PS EE:00050F;''), Some (ascii ''@BDC PS EE:000710;'')] ! i
                    = Some (ascii ''@BDC PS EE:'' @ [h1, h2, h3, h4, h5, h6] @ ascii '';'')
              \<longrightarrow> snd (res ! i) =
                    (if hex_addr h1 h2 h3 h4 = [5, 6] ! i then Some (hex_val h5 h6) else None))
          \<and> (\<forall>v. snd (res ! i) = Some v \<longrightarrow>
                (\<exists>b pre w c1 c2 c3 c4 c5 c6 post.
                    [Some (ascii ''@BDC PS EE:00050F;''), Some (ascii ''@BDC PS EE:000710;'')] ! i = Some b
                  \<and> (\<forall>x \<in> set b. uint x < 128)
                  \<and> map uint b = pre @ w # 69 # 69 # 58 # c1 # c2 # c3 # c4 # c5 # c6 # 59 # post
                  \<and> 10 \<notin> set pre \<and> is_space w
                  \<and> is_hex c1 \<and> is_hex c2 \<and> is_hex c3 \<and> is_hex c4 \<and> is_hex c5 \<and> is_hex c6
                  \<and> rlen default_spec \<noteq> 1
                  \<and> (hexval c1 * 16 + hexval c2) * 256 + (hexval c3 * 16 + hexval c4) = [5, 6] ! i
                  \<and> v = hexval c5 * 16 + hexval c6))
          \<and> (rlen default_spec = 1 \<longrightarrow> snd (res ! i) = None)"
    by (elim exE conjE)
  have i0: "0 < length [5 :: int, 6]" and i1: "1 < length [5 :: int, 6]"
    by simp_all
  note b0 = slots [rule_format, OF i0]
  note b1 = slots [rule_format, OF i1]
  have f0: "fst (res ! 0) = 5"
    using b0 [THEN conjunct1] by simp
  have f1: "fst (res ! 1) = 6"
    using b1 [THEN conjunct1] by simp
  have s0: "snd (res ! 0) = Some 0x0F"
    using b0 [THEN conjunct2, THEN conjunct1, rule_format, of 48 48 48 53 48 70]
    by (simp add: default_spec_def is_hex_def ascii_def hex_addr_def hex_val_def hexval_def)
  have s1: "snd (res ! 1) = None"
    using b1 [THEN conjunct2, THEN conjunct1, rule_format, of 48 48 48 55 49 48]
    by (simp add: default_spec_def is_hex_def ascii_def hex_addr_def hex_val_def hexval_def)
  have "res ! 0 = (5, Some 0x0F)" "res ! 1 = (6, None)"
    using f0 f1 s0 s1 by (simp_all add: prod_eq_iff)
  moreover have "res = [res ! 0, res ! 1]"
    using len by (intro len2_nth) simp
  ultimately have "res = [(5, Some 0x0F), (6, None)]" by simp
  with rd show ?thesis by simp
qed

section \<open>The search for the read key\<close>

lemma find_rkey_loop_frame:
  "find_rkey_loop chan sp orig pos ks d = (res, sp', d') \<Longrightarrow> sp' = sp\<lparr>rkey := rkey sp'\<rparr>"
proof (induction ks arbitrary: sp d)
  case Nil
  then show ?case by auto
next
  case (Cons c cs)
  show ?case
  proof (cases "read_eeprom chan (sp\<lparr>rkey := c\<rparr>) [pos] d")
    case (Pair r d1)
    show ?thesis
    proof (cases r)
      case (Inl e)
      with Cons.prems Pair show ?thesis by auto
    next
      case (Inr slots)
      show ?thesis
      proof (cases slots)
        case Nil
        with Cons.prems Pair Inr show ?thesis by auto
      next
        case (Cons s rest)
        obtain a v where s: "s = (a, v)" by (cases s)
        show ?thesis
        proof (cases v)
          case None
          with Cons.prems Pair Inr Cons s
          have "find_rkey_loop chan (sp\<lparr>rkey := c\<rparr>) orig pos cs d1 = (res, sp', d')" by simp
          from Cons.IH [OF this] have "sp' = sp\<lparr>rkey := c\<rparr>\<lparr>rkey := rkey sp'\<rparr>" .
          then show ?thesis by simp
        next
          case (Some x)
          with Cons.prems Pair Inr Cons s show ?thesis by auto
        qed
      qed
    qed
  qed
qed

lemma find_rkey_loop_entry:
  "find_rkey_loop chan (sp\<lparr>rkey := x\<rparr>) orig pos ks d = find_rkey_loop chan sp orig pos ks d"
  by (cases ks) (simp_all cong: prod.case_cong sum.case_cong list.case_cong option.case_cong)

lemma find_rkey_loop_append:
  "find_rkey_loop chan sp orig pos pre d = (Inr None, sp1, d0) \<Longrightarrow>
   find_rkey_loop chan sp orig pos (pre @ ks) d = find_rkey_loop chan sp orig pos ks d0"
proof (induction pre arbitrary: sp d)
  case Nil
  then show ?case by simp
next
  case (Cons c cs)
  from Cons.prems obtain a rest d1 where
    rd: "read_eeprom chan (sp\<lparr>rkey := c\<rparr>) [pos] d = (Inr ((a, None) # rest), d1)"
    and lp: "find_rkey_loop chan (sp\<lparr>rkey := c\<rparr>) orig pos cs d1 = (Inr None, sp1, d0)"
    by (auto split: prod.splits sum.splits list.splits option.splits)
  from Cons.IH [OF lp] rd show ?case
    by (simp add: find_rkey_loop_entry)
qed

lemma find_rkey_loop_None:
  "find_rkey_loop chan sp orig pos ks d = (Inr None, sp', d') \<Longrightarrow> sp' = sp\<lparr>rkey := orig\<rparr>"
proof (induction ks arbitrary: sp d)
  case Nil
  then show ?case by auto
next
  case (Cons c cs)
  from Cons.prems obtain d1 where
    lp: "find_rkey_loop chan (sp\<lparr>rkey := c\<rparr>) orig pos cs d1 = (Inr None, sp', d')"
    by (auto split: prod.splits sum.splits list.splits option.splits)
  from Cons.IH [OF lp] show ?case by simp
qed

lemma find_rkey_loop_Some:
  "find_rkey_loop chan sp orig pos ks d = (Inr (Some c), sp', d') \<Longrightarrow>
   \<exists>pre post d0 a v rest sp0. ks = pre @ c # post
     \<and> find_rkey_loop chan sp orig pos pre d = (Inr None, sp0, d0)
     \<and> read_eeprom chan (sp\<lparr>rkey := c\<rparr>) [pos] d0 = (Inr ((a, Some v) # rest), d')
     \<and> sp' = sp\<lparr>rkey := c\<rparr>"
proof (induction ks arbitrary: sp d)
  case Nil
  then show ?case by simp
next
  case (Cons k ks)
  from Cons.prems consider
    (hit) a v rest where "read_eeprom chan (sp\<lparr>rkey := k\<rparr>) [pos] d = (Inr ((a, Some v) # rest), d')"
      "k = c" "sp' = sp\<lparr>rkey := k\<rparr>"
  | (miss) a rest d1 where "read_eeprom chan (sp\<lparr>rkey := k\<rparr>) [pos] d = (Inr ((a, None) # rest), d1)"
      "find_rkey_loop chan (sp\<lparr>rkey := k\<rparr>) orig pos ks d1 = (Inr (Some c), sp', d')"
    by (auto split: prod.splits sum.splits list.splits option.splits)
  then show ?case
  proof cases
    case hit
    then have "k # ks = [] @ c # ks
      \<and> find_rkey_loop chan sp orig pos [] d = (Inr None, sp\<lparr>rkey := orig\<rparr>, d)
      \<and> read_eeprom chan (sp\<lparr>rkey := c\<rparr>) [pos] d = (Inr ((a, Some v) # rest), d')
      \<and> sp' = sp\<lparr>rkey := c\<rparr>" by simp
    then show ?thesis by blast
  next
    case miss
    from Cons.IH [OF miss(2)] obtain pre post d0 a' v rest' sp0 where
      ks: "ks = pre @ c # post"
      and lp: "find_rkey_loop chan (sp\<lparr>rkey := k\<rparr>) orig pos pre d1 = (Inr None, sp0, d0)"
      and rd: "read_eeprom chan (sp\<lparr>rkey := k\<rparr>\<lparr>rkey := c\<rparr>) [pos] d0 = (Inr ((a', Some v) # rest'), d')"
      and sp': "sp' = sp\<lparr>rkey := k\<rparr>\<lparr>rkey := c\<rparr>"
      by blast
    have "k # ks = (k # pre) @ c # post" using ks by simp
    moreover have "find_rkey_loop chan sp orig pos (k # pre) d = (Inr None, sp0, d0)"
      using miss(1) lp by simp
    moreover have "read_eeprom chan (sp\<lparr>rkey := c\<rparr>) [pos] d0 = (Inr ((a', Some v) # rest'), d')"
      using rd by simp
    moreover have "sp' = sp\<lparr>rkey := c\<rparr>" using sp' by simp
    ultimately show ?thesis by blast
  qed
qed

lemma find_rkey_loop_None_reads:
  "find_rkey_loop chan sp orig pos ks d = (Inr None, sp', d') \<Longrightarrow> ks = pre @ c # post \<Longrightarrow>
   \<exists>d0 d1 a rest sp0. find_rkey_loop chan sp orig pos pre d = (Inr None, sp0, d0)
     \<and> read_eeprom chan (sp\<lparr>rkey := c\<rparr>) [pos] d0 = (Inr ((a, None) # rest), d1)"
proof (induction pre arbitrary: sp d ks)
  case Nil
  then show ?case
    by (auto split: prod.splits sum.splits list.splits option.splits)
next
  case (Cons k pre)
  from Cons.prems obtain a rest d1 where
    rd: "read_eeprom chan (sp\<lparr>rkey := k\<rparr>) [pos] d = (Inr ((a, None) # rest), d1)"
    and lp: "find_rkey_loop chan (sp\<lparr>rkey := k\<rparr>) orig pos (pre @ c # post) d1 = (Inr None, sp', d')"
    by (auto split: prod.splits sum.splits list.splits option.splits)
  from Cons.IH [OF lp refl] obtain d0 d2 a' rest' sp0 where
    "find_rkey_loop chan (sp\<lparr>rkey := k\<rparr>) orig pos pre d1 = (Inr None, sp0, d0)"
    "read_eeprom chan (sp\<lparr>rkey := k\<rparr>\<lparr>rkey := c\<rparr>) [pos] d0 = (Inr ((a', None) # rest'), d2)"
    by blast
  with rd show ?case by auto
qed


text \<open>
  C10. \<^verbatim>\<open>find_rkey\<close> changes no field of the spec but \<open>rkey\<close>. When it returns \<^verbatim>\<open>None\<close>,
  \<open>rkey\<close> has its original value and every candidate, tried in order, gave a read that did
  not parse. When it returns a candidate \<open>c\<close>, \<open>rkey\<close> is \<open>c\<close>, the candidates before \<open>c\<close> gave
  reads that did not parse and the read with \<open>c\<close> parsed. Conversely, the first candidate
  whose read parses is set and returned.
\<close>

theorem find_rkey_effect:
  "(find_rkey chan sp ikeys d = (res, sp', d') \<longrightarrow>
      sp' = sp\<lparr>rkey := rkey sp'\<rparr>
      \<and> (res = Inr None \<longrightarrow>
            rkey sp' = rkey sp
            \<and> (\<forall>pre c post. ikeys = pre @ c # post \<longrightarrow>
                 (\<exists>d0 d1 a rest. find_rkey chan sp pre d = (Inr None, sp, d0)
                    \<and> read_eeprom chan (sp\<lparr>rkey := c\<rparr>) [mem_low sp] d0
                        = (Inr ((a, None) # rest), d1))))
      \<and> (\<forall>c. res = Inr (Some c) \<longrightarrow>
            rkey sp' = c
            \<and> (\<exists>pre post d0 a v rest. ikeys = pre @ c # post
                  \<and> find_rkey chan sp pre d = (Inr None, sp, d0)
                  \<and> read_eeprom chan (sp\<lparr>rkey := c\<rparr>) [mem_low sp] d0
                      = (Inr ((a, Some v) # rest), d'))))
   \<and> (find_rkey chan sp pre' d = (Inr None, sp, ea)
        \<and> read_eeprom chan (sp\<lparr>rkey := k\<rparr>) [mem_low sp] ea = (Inr ((b, Some w) # rest'), eb)
      \<longrightarrow> find_rkey chan sp (pre' @ k # post') d = (Inr (Some k), sp\<lparr>rkey := k\<rparr>, eb))"
proof -
  have same: "sp\<lparr>rkey := rkey sp\<rparr> = sp"
    by simp
  have frame: "sp' = sp\<lparr>rkey := rkey sp'\<rparr>"
    if "find_rkey chan sp ikeys d = (res, sp', d')"
    using find_rkey_loop_frame [OF that [unfolded find_rkey_def]] .
  have noneb: "rkey sp' = rkey sp"
    if "find_rkey chan sp ikeys d = (Inr None, sp', d')"
    using find_rkey_loop_None [OF that [unfolded find_rkey_def]] by simp
  have none2: "\<exists>d0 d1 a rest. find_rkey chan sp pre d = (Inr None, sp, d0)
                    \<and> read_eeprom chan (sp\<lparr>rkey := c\<rparr>) [mem_low sp] d0
                        = (Inr ((a, None) # rest), d1)"
    if r: "find_rkey chan sp ikeys d = (Inr None, sp', d')" and k: "ikeys = pre @ c # post"
    for pre c post
  proof -
    from find_rkey_loop_None_reads [OF r [unfolded find_rkey_def] k]
    obtain d0 d1 a rest sp0 where
      lp: "find_rkey_loop chan sp (rkey sp) (mem_low sp) pre d = (Inr None, sp0, d0)"
      and rd: "read_eeprom chan (sp\<lparr>rkey := c\<rparr>) [mem_low sp] d0 = (Inr ((a, None) # rest), d1)"
      by blast
    from find_rkey_loop_None [OF lp] have "sp0 = sp" by simp
    with lp rd show ?thesis unfolding find_rkey_def by blast
  qed
  have some: "rkey sp' = c
            \<and> (\<exists>pre post d0 a v rest. ikeys = pre @ c # post
                  \<and> find_rkey chan sp pre d = (Inr None, sp, d0)
                  \<and> read_eeprom chan (sp\<lparr>rkey := c\<rparr>) [mem_low sp] d0
                      = (Inr ((a, Some v) # rest), d'))"
    if r: "find_rkey chan sp ikeys d = (Inr (Some c), sp', d')" for c
  proof -
    from find_rkey_loop_Some [OF r [unfolded find_rkey_def]]
    obtain pre post d0 a v rest sp0 where
      k: "ikeys = pre @ c # post"
      and lp: "find_rkey_loop chan sp (rkey sp) (mem_low sp) pre d = (Inr None, sp0, d0)"
      and rd: "read_eeprom chan (sp\<lparr>rkey := c\<rparr>) [mem_low sp] d0 = (Inr ((a, Some v) # rest), d')"
      and sp': "sp' = sp\<lparr>rkey := c\<rparr>"
      by blast
    from find_rkey_loop_None [OF lp] have "sp0 = sp" by simp
    with k lp rd sp' show ?thesis unfolding find_rkey_def by auto
  qed
  have conv: "find_rkey chan sp (pre' @ k # post') d = (Inr (Some k), sp\<lparr>rkey := k\<rparr>, eb)"
    if lp: "find_rkey chan sp pre' d = (Inr None, sp, ea)"
      and rd: "read_eeprom chan (sp\<lparr>rkey := k\<rparr>) [mem_low sp] ea = (Inr ((b, Some w) # rest'), eb)"
    unfolding find_rkey_def find_rkey_loop_append [OF lp [unfolded find_rkey_def]]
    using rd by simp
  show ?thesis
    using frame noneb none2 some conv by blast
qed

theorem find_rkey_effect_witness:
  "find_rkey scripted (default_spec\<lparr>rkey := 7\<rparr>) [1, 2, 3, 4]
     [Some (ascii ''@BDC PS ER;''), None, Some (ascii ''@BDC PS EE:000042;''), None]
   = (Inr (Some 3), default_spec\<lparr>rkey := 3\<rparr>, [None])
   \<and> find_rkey scripted (default_spec\<lparr>rkey := 7\<rparr>) [1, 2]
     [Some (ascii ''@BDC PS ER;''), None, Some (ascii ''@BDC PS EE:000042;''), None]
   = (Inr None, default_spec\<lparr>rkey := 7\<rparr>, [Some (ascii ''@BDC PS EE:000042;''), None])"
proof -
  let ?sp = "default_spec\<lparr>rkey := 7\<rparr>"
  let ?rs = "[Some (ascii ''@BDC PS ER;''), None, Some (ascii ''@BDC PS EE:000042;''), None]"
  have ev: "pack_addr 2 0 = Inr [0, 0]"
    "\<And>k. 0 \<le> k \<Longrightarrow> k \<le> 255 \<Longrightarrow> encode (default_spec\<lparr>rkey := k\<rparr>) (Factory ''|'' ''A'') [0, 0] =
      Inr [0x7C, 0x7C, 0x07, 0x00, word_of_int k, 0x00, 0x41, 0xBE, 0xA0, 0x00, 0x00]"
    by (simp_all add: pack_addr_def default_spec_def pack_H_le_def pack_B_def inv8_def rot1_def
        frame_def encode_ascii_def ascii_def)
  have s1: "read_slot 2 0 (Some (ascii ''@BDC PS ER;'')) = (0, None)"
    by (simp add: read_slot_def parse_reply_def ascii_def decode_ascii_def is_space_def
        is_hex_def)
  have s2: "read_slot 2 0 None = (0, None)"
    by (simp add: read_slot_def parse_reply_def)
  have s3: "read_slot 2 0 (Some (ascii ''@BDC PS EE:000042;'')) = (0, Some 0x42)"
    by (simp add: read_slot_def parse_reply_def ascii_def decode_ascii_def is_space_def
        is_hex_def hexval_def unpack_addr_val_def unpack_H_be_def unpack_B_def)
  have rd: "\<And>k r rs. 0 \<le> k \<Longrightarrow> k \<le> 255 \<Longrightarrow>
      read_eeprom scripted (default_spec\<lparr>rkey := k\<rparr>) [0] (r # rs) = (Inr [read_slot 2 0 r], rs)"
    using ev by (simp add: read_eeprom_def scripted_def default_spec_def)
  have dflt: "rlen default_spec = 2" "mem_low default_spec = 0" "rkey default_spec = 0"
    by (simp_all add: default_spec_def)
  have pre: "find_rkey scripted ?sp [1, 2] ?rs
     = (Inr None, ?sp, [Some (ascii ''@BDC PS EE:000042;''), None])"
    by (simp add: find_rkey_def dflt rd s1 s2)
  have hit: "read_eeprom scripted (?sp\<lparr>rkey := 3\<rparr>) [mem_low ?sp]
       [Some (ascii ''@BDC PS EE:000042;''), None] = (Inr ((0, Some 0x42) # []), [None])"
    by (simp add: dflt rd s3)
  from find_rkey_effect [where chan = scripted and sp = ?sp and pre' = "[1, 2]" and k = 3
      and post' = "[4]" and d = ?rs and ea = "[Some (ascii ''@BDC PS EE:000042;''), None]"
      and b = 0 and w = "0x42" and rest' = "[]" and eb = "[None]"] pre hit
  have "find_rkey scripted ?sp ([1, 2] @ 3 # [4]) ?rs = (Inr (Some 3), ?sp\<lparr>rkey := 3\<rparr>, [None])"
    by blast
  with pre show ?thesis by simp
qed

section \<open>Writing without a key\<close>

lemma encode_A_is_read: "encode sp (Factory ''|'' ''A'') pl = Inr m \<Longrightarrow> is_factory_read m"
  by (auto simp: bindE_def pack_H_le_def pack_B_def frame_def encode_ascii_def ascii_def
      inv8_def rot1_def is_factory_read_def split: sum.splits if_splits)

lemma encode_B_is_write: "encode sp (Factory ''|'' ''B'') pl = Inr m \<Longrightarrow> is_factory_write m"
  by (auto simp: bindE_def pack_H_le_def pack_B_def frame_def encode_ascii_def ascii_def
      inv8_def rot1_def is_factory_write_def split: sum.splits if_splits)

lemma read_not_write: "is_factory_read m \<Longrightarrow> \<not> is_factory_write m"
  by (auto simp: is_factory_read_def is_factory_write_def)

lemma read_loop_log:
  "read_loop (logged chan) sp xs dl = (r, dl') \<Longrightarrow>
   \<exists>ms. snd dl' = snd dl @ ms \<and> (\<forall>m \<in> set ms. is_factory_read m)"
proof (induction xs arbitrary: dl r dl')
  case Nil
  then show ?case by auto
next
  case (Cons x xs)
  obtain a pl where x: "x = (a, pl)" by (cases x)
  show ?case
  proof (cases "encode sp (Factory ''|'' ''A'') pl")
    case (Inl e)
    with Cons.prems x show ?thesis by auto
  next
    case (Inr m)
    obtain r1 d1 where c: "chan m (fst dl) = (r1, d1)" by (cases "chan m (fst dl)")
    then have lg: "logged chan m dl = (r1, (d1, snd dl @ [m]))"
      by (simp add: logged_def)
    show ?thesis
    proof (cases r1)
      case (Inl e)
      with Cons.prems x Inr lg have "dl' = (d1, snd dl @ [m])" by auto
      with encode_A_is_read [OF Inr] show ?thesis by auto
    next
      case r1: (Inr rep)
      obtain r2 dl2 where rec: "read_loop (logged chan) sp xs (d1, snd dl @ [m]) = (r2, dl2)"
        by (cases "read_loop (logged chan) sp xs (d1, snd dl @ [m])")
      from Cons.IH [OF rec] obtain ms where
        ms: "snd dl2 = snd dl @ [m] @ ms" "\<forall>m \<in> set ms. is_factory_read m" by auto
      from Cons.prems x Inr lg r1 rec have "dl' = dl2"
        by (auto split: sum.splits)
      with ms encode_A_is_read [OF Inr] have
        "snd dl' = snd dl @ (m # ms) \<and> (\<forall>k \<in> set (m # ms). is_factory_read k)" by auto
      then show ?thesis by blast
    qed
  qed
qed

lemma read_eeprom_log:
  "read_eeprom (logged chan) sp addr dl = (r, dl') \<Longrightarrow>
   \<exists>ms. snd dl' = snd dl @ ms \<and> (\<forall>m \<in> set ms. is_factory_read m)"
  unfolding read_eeprom_def Let_def
  by (auto split: sum.splits dest: read_loop_log)

lemma write_arg_no_key: "\<exists>e. write_arg sp None av = Inl e"
  by (cases "pack_addr (wlen sp) (fst av)"; cases "pack_opt_B (snd av)")
     (auto simp: write_arg_def)

lemma write_plain_no_key:
  "addrval \<noteq> [] \<Longrightarrow> \<exists>e. write_plain chan sp addrval None check_read d = (Inl e, d)"
proof (cases addrval)
  case Nil
  assume "addrval \<noteq> []"
  with Nil show ?thesis by simp
next
  case (Cons av rest)
  obtain e where "write_arg sp None av = Inl e" using write_arg_no_key by blast
  with Cons show ?thesis by (simp add: write_plain_def)
qed

lemma write_plain_empty: "write_plain chan sp [] wk check_read d = (Inr True, d)"
  by (simp add: write_plain_def)

text \<open>
  C9. \<^verbatim>\<open>write_eeprom\<close> called without a key on a spec without a write key: with at least one
  pair the call raises (the key \<^verbatim>\<open>None\<close> cannot be appended to the packed pair), and no
  message sent during the call is a factory write command; with \<^verbatim>\<open>atomic=False\<close> nothing is
  sent at all. The messages a write would send are factory write commands, so the
  recogniser misses none.
\<close>

theorem write_eeprom_no_key:
  assumes "wkey sp = None"
    and "write_eeprom (logged chan) sp addrval None check_read atomic (d, lg) = (res, (d', lg'))"
  shows "(addrval \<noteq> [] \<longrightarrow> (\<exists>e. res = Inl e))
       \<and> (\<exists>ms. lg' = lg @ ms \<and> (\<forall>m \<in> set ms. \<not> is_factory_write m))
       \<and> (\<not> atomic \<longrightarrow> lg' = lg \<and> d' = d)
       \<and> (\<forall>pl m. encode sp (Factory ''|'' ''B'') pl = Inr m \<longrightarrow> is_factory_write m)"
proof (cases atomic)
  case False
  have "res = Inr True \<and> lg' = lg \<and> d' = d" if "addrval = []"
    using assms False that by (simp add: write_eeprom_def write_plain_empty)
  moreover have "(\<exists>e. res = Inl e) \<and> lg' = lg \<and> d' = d" if "addrval \<noteq> []"
    using assms False write_plain_no_key [OF that, of "logged chan" sp check_read "(d, lg)"]
    by (auto simp: write_eeprom_def)
  ultimately show ?thesis
    using False encode_B_is_write by (cases "addrval = []") auto
next
  case True
  obtain r1 dl1 where rd: "read_eeprom (logged chan) sp (map fst addrval) (d, lg) = (r1, dl1)"
    by (cases "read_eeprom (logged chan) sp (map fst addrval) (d, lg)")
  from read_eeprom_log [OF rd] obtain ms where
    ms: "snd dl1 = lg @ ms" "\<forall>m \<in> set ms. is_factory_read m" by auto
  have fin: "snd (d', lg') = snd dl1 \<and> (addrval \<noteq> [] \<longrightarrow> (\<exists>e. res = Inl e))"
  proof (cases r1)
    case (Inl e)
    with assms True rd show ?thesis by (auto simp: write_eeprom_def)
  next
    case (Inr prev)
    show ?thesis
    proof (cases "addrval = []")
      case empty: True
      with assms True rd Inr show ?thesis
        by (simp add: write_eeprom_def write_plain_empty)
    next
      case False
      from write_plain_no_key [OF False, of "logged chan" sp check_read dl1]
      obtain e where "write_plain (logged chan) sp addrval None check_read dl1 = (Inl e, dl1)"
        by blast
      with assms True rd Inr show ?thesis
        by (auto simp: write_eeprom_def)
    qed
  qed
  with ms have "lg' = lg @ ms \<and> (\<forall>m \<in> set ms. \<not> is_factory_write m)"
    using read_not_write by auto
  with fin True encode_B_is_write show ?thesis by blast
qed


theorem write_eeprom_no_key_witness:
  "write_eeprom (logged scripted) default_spec [(5, Some 1)] None True True
     ([Some (ascii ''@BDC PS EE:000542;'')], [])
   = (Inl TypeError, ([], [[0x7C, 0x7C, 0x07, 0x00, 0x00, 0x00, 0x41, 0xBE, 0xA0, 0x05, 0x00]]))
   \<and> \<not> is_factory_write [0x7C, 0x7C, 0x07, 0x00, 0x00, 0x00, 0x41, 0xBE, 0xA0, 0x05, 0x00]
   \<and> write_eeprom (logged scripted) default_spec [(5, Some 1)] None True False
     ([Some (ascii ''@BDC PS EE:000542;'')], [])
   = (Inl TypeError, ([Some (ascii ''@BDC PS EE:000542;'')], []))"
proof -
  have k: "wkey default_spec = None"
    by (simp add: default_spec_def)
  have enc: "encode default_spec (Factory ''|'' ''A'') [5, 0] =
      Inr [0x7C, 0x7C, 0x07, 0x00, 0x00, 0x00, 0x41, 0xBE, 0xA0, 0x05, 0x00]"
    by (simp add: default_spec_def pack_H_le_def pack_B_def inv8_def rot1_def frame_def
        encode_ascii_def ascii_def)
  have rd: "read_eeprom (logged scripted) default_spec [5]
      ([Some (ascii ''@BDC PS EE:000542;'')], [])
    = (Inr [read_slot 2 5 (Some (ascii ''@BDC PS EE:000542;''))],
       ([], [[0x7C, 0x7C, 0x07, 0x00, 0x00, 0x00, 0x41, 0xBE, 0xA0, 0x05, 0x00]]))"
    using enc
    by (simp add: read_eeprom_def pack_addr_def pack_H_le_def logged_def scripted_def
        default_spec_def)
  have wp: "\<And>dl. write_plain (logged scripted) default_spec [(5, Some 1)] None True dl
     = (Inl TypeError, dl)"
    by (simp add: write_plain_def write_arg_def pack_addr_def pack_H_le_def pack_opt_B_def
        pack_B_def default_spec_def)
  have run: "write_eeprom (logged scripted) default_spec [(5, Some 1)] None True True
     ([Some (ascii ''@BDC PS EE:000542;'')], [])
   = (Inl TypeError, ([], [[0x7C, 0x7C, 0x07, 0x00, 0x00, 0x00, 0x41, 0xBE, 0xA0, 0x05, 0x00]]))"
    by (simp add: write_eeprom_def k rd wp)
  have run2: "write_eeprom (logged scripted) default_spec [(5, Some 1)] None True False
     ([Some (ascii ''@BDC PS EE:000542;'')], [])
   = (Inl TypeError, ([Some (ascii ''@BDC PS EE:000542;'')], []))"
    by (simp add: write_eeprom_def k wp)
  from write_eeprom_no_key [OF k run]
  have "\<not> is_factory_write [0x7C, 0x7C, 0x07, 0x00, 0x00, 0x00, 0x41, 0xBE, 0xA0, 0x05, 0x00]"
    by auto
  with run run2 show ?thesis by blast
qed

section \<open>Atomic writes\<close>

lemma encode_read_16:
  "encode (default_spec\<lparr>wkey := Some (ascii ''Azzzzzzz'')\<rparr>) (Factory ''|'' ''A'') [0x10, 0] =
     Inr [0x7C, 0x7C, 0x07, 0x00, 0x00, 0x00, 0x41, 0xBE, 0xA0, 0x10, 0x00]"
  by (simp add: default_spec_def pack_H_le_def pack_B_def inv8_def rot1_def frame_def
      encode_ascii_def ascii_def)

lemma encode_write_16:
  "encode (default_spec\<lparr>wkey := Some (ascii ''Azzzzzzz'')\<rparr>) (Factory ''|'' ''B'')
      ([0x10, 0, v] @ ascii ''Azzzzzzz'') =
     Inr ([0x7C, 0x7C, 0x10, 0x00, 0x00, 0x00, 0x42, 0xBD, 0x21, 0x10, 0x00, v]
          @ ascii ''Azzzzzzz'')"
  by (simp add: default_spec_def pack_H_le_def pack_B_def inv8_def rot1_def frame_def
      encode_ascii_def ascii_def)

lemma read_16_scripted:
  "read_eeprom (logged scripted) (default_spec\<lparr>wkey := Some (ascii ''Azzzzzzz'')\<rparr>) [0x10]
       (r # rs, lg)
     = (Inr [read_slot 2 0x10 r],
        (rs, lg @ [[0x7C, 0x7C, 0x07, 0x00, 0x00, 0x00, 0x41, 0xBE, 0xA0, 0x10, 0x00]]))"
  using encode_read_16
  by (simp add: read_eeprom_def pack_addr_def pack_H_le_def logged_def scripted_def
      default_spec_def)

lemma slot_ER: "read_slot 2 0x10 (Some (ascii ''@BDC PS ER;'')) = (0x10, None)"
  by (simp add: read_slot_def parse_reply_def ascii_def decode_ascii_def is_space_def is_hex_def)

lemma slot_42: "read_slot 2 0x10 (Some (ascii ''@BDC PS EE:001042;'')) = (0x10, Some 0x42)"
  by (simp add: read_slot_def parse_reply_def ascii_def decode_ascii_def is_space_def
      is_hex_def hexval_def unpack_addr_val_def unpack_H_be_def unpack_B_def)

lemma slot_FF: "read_slot 2 0x10 (Some (ascii ''@BDC PS EE:0010FF;'')) = (0x10, Some 0xFF)"
  by (simp add: read_slot_def parse_reply_def ascii_def decode_ascii_def is_space_def
      is_hex_def hexval_def unpack_addr_val_def unpack_H_be_def unpack_B_def)

lemma write_arg_16:
  "write_arg (default_spec\<lparr>wkey := Some (ascii ''Azzzzzzz'')\<rparr>) (Some (ascii ''Azzzzzzz''))
      (0x10, Some 0) = Inr ([0x10, 0, 0] @ ascii ''Azzzzzzz'')"
  "write_arg (default_spec\<lparr>wkey := Some (ascii ''Azzzzzzz'')\<rparr>) (Some (ascii ''Azzzzzzz''))
      (0x10, Some 0x42) = Inr ([0x10, 0, 0x42] @ ascii ''Azzzzzzz'')"
  "write_arg (default_spec\<lparr>wkey := Some (ascii ''Azzzzzzz'')\<rparr>) (Some (ascii ''Azzzzzzz''))
      (0x10, None) = Inl StructError"
  by (simp_all add: write_arg_def pack_addr_def pack_H_le_def pack_opt_B_def pack_B_def
      default_spec_def)

lemma ok_in: "contains_bytes (ascii '':OK;'') (ascii ''||:42:OK;'')"
  "\<not> contains_bytes (ascii '':OK;'') (ascii ''||:42:NA;'')"
  by (simp_all add: ascii_def)

text \<open>
  C1 at an input where it fails. The printer answers the read of the original value with
  a reply that does not parse, so \<open>prev = [(0x10, None)]\<close>, and the write with a reply
  without \<^verbatim>\<open>:OK;\<close>, so the result of the write is \<^verbatim>\<open>False\<close>. The restoring call packs the
  value \<^verbatim>\<open>None\<close>: \<^verbatim>\<open>write_eeprom\<close> raises \<^verbatim>\<open>struct.error\<close> instead of returning \<^verbatim>\<open>False\<close>, and
  no restoring command reaches the printer (the channel has seen the read and the write
  only).
\<close>

theorem write_eeprom_restore_none:
  "write_eeprom (logged scripted) (default_spec\<lparr>wkey := Some (ascii ''Azzzzzzz'')\<rparr>)
      [(0x10, Some 0)] None True True
      ([Some (ascii ''@BDC PS ER;''), Some (ascii ''||:42:NA;'')], [])
   = (Inl StructError,
      ([], [[0x7C, 0x7C, 0x07, 0x00, 0x00, 0x00, 0x41, 0xBE, 0xA0, 0x10, 0x00],
            [0x7C, 0x7C, 0x10, 0x00, 0x00, 0x00, 0x42, 0xBD, 0x21, 0x10, 0x00, 0x00]
              @ ascii ''Azzzzzzz'']))"
proof -
  let ?sp = "default_spec\<lparr>wkey := Some (ascii ''Azzzzzzz'')\<rparr>"
  let ?R = "[0x7C, 0x7C, 0x07, 0x00, 0x00, 0x00, 0x41, 0xBE, 0xA0, 0x10, 0x00] :: bytes"
  let ?W = "[0x7C, 0x7C, 0x10, 0x00, 0x00, 0x00, 0x42, 0xBD, 0x21, 0x10, 0x00, 0x00]
              @ ascii ''Azzzzzzz''"
  have prev: "read_eeprom (logged scripted) ?sp (map fst [(0x10, Some 0)])
       ([Some (ascii ''@BDC PS ER;''), Some (ascii ''||:42:NA;'')], [])
     = (Inr [(0x10, None)], ([Some (ascii ''||:42:NA;'')], [?R]))"
    using read_16_scripted [of "Some (ascii ''@BDC PS ER;'')" "[Some (ascii ''||:42:NA;'')]" "[]"]
    by (simp add: slot_ER)
  have wr: "write_plain (logged scripted) ?sp [(0x10, Some 0)] (Some (ascii ''Azzzzzzz'')) True
       ([Some (ascii ''||:42:NA;'')], [?R])
     = (Inr False, ([], [?R, ?W]))"
    using encode_write_16 [of 0] ok_in(2)
    by (simp add: write_plain_def write_arg_16 logged_def scripted_def)
  have rs: "write_plain (logged scripted) ?sp [(0x10, None)] (Some (ascii ''Azzzzzzz'')) True
       ([], [?R, ?W])
     = (Inl StructError, ([], [?R, ?W]))"
    by (simp add: write_plain_def write_arg_16)
  have k: "wkey ?sp = Some (ascii ''Azzzzzzz'')"
    by simp
  show ?thesis
    unfolding write_eeprom_def Let_def
    by (simp only: k option.case if_True prev wr rs prod.case sum.case not_False_eq_True)
qed

text \<open>
  Where every original value was read, the rollback works as described: the write of
  \<open>(0x10, 0)\<close> is acknowledged but reads back \<open>0xFF\<close>, one restoring write of the original
  \<open>0x42\<close> follows, and the result is \<^verbatim>\<open>False\<close>.
\<close>

lemma write_eeprom_rollback_scenario:
  "write_eeprom (logged scripted) (default_spec\<lparr>wkey := Some (ascii ''Azzzzzzz'')\<rparr>)
      [(0x10, Some 0)] None True True
      ([Some (ascii ''@BDC PS EE:001042;''), Some (ascii ''||:42:OK;''),
        Some (ascii ''@BDC PS EE:0010FF;''), Some (ascii ''||:42:OK;''),
        Some (ascii ''@BDC PS EE:001042;'')], [])
   = (Inr False,
      ([], [[0x7C, 0x7C, 0x07, 0x00, 0x00, 0x00, 0x41, 0xBE, 0xA0, 0x10, 0x00],
            [0x7C, 0x7C, 0x10, 0x00, 0x00, 0x00, 0x42, 0xBD, 0x21, 0x10, 0x00, 0x00]
              @ ascii ''Azzzzzzz'',
            [0x7C, 0x7C, 0x07, 0x00, 0x00, 0x00, 0x41, 0xBE, 0xA0, 0x10, 0x00],
            [0x7C, 0x7C, 0x10, 0x00, 0x00, 0x00, 0x42, 0xBD, 0x21, 0x10, 0x00, 0x42]
              @ ascii ''Azzzzzzz'',
            [0x7C, 0x7C, 0x07, 0x00, 0x00, 0x00, 0x41, 0xBE, 0xA0, 0x10, 0x00]]))"
proof -
  let ?sp = "default_spec\<lparr>wkey := Some (ascii ''Azzzzzzz'')\<rparr>"
  let ?R = "[0x7C, 0x7C, 0x07, 0x00, 0x00, 0x00, 0x41, 0xBE, 0xA0, 0x10, 0x00] :: bytes"
  let ?W = "\<lambda>v. [0x7C, 0x7C, 0x10, 0x00, 0x00, 0x00, 0x42, 0xBD, 0x21, 0x10, 0x00, v]
              @ ascii ''Azzzzzzz''"
  let ?r1 = "[Some (ascii ''||:42:OK;''),
        Some (ascii ''@BDC PS EE:0010FF;''), Some (ascii ''||:42:OK;''),
        Some (ascii ''@BDC PS EE:001042;'')]"
  let ?r3 = "[Some (ascii ''||:42:OK;''), Some (ascii ''@BDC PS EE:001042;'')]"
  have prev: "read_eeprom (logged scripted) ?sp (map fst [(0x10, Some 0)])
       (Some (ascii ''@BDC PS EE:001042;'') # ?r1, [])
     = (Inr [(0x10, Some 0x42)], (?r1, [?R]))"
    using read_16_scripted [of "Some (ascii ''@BDC PS EE:001042;'')" ?r1 "[]"]
    by (simp add: slot_42)
  have wr: "write_plain (logged scripted) ?sp [(0x10, Some 0)] (Some (ascii ''Azzzzzzz'')) True
       (?r1, [?R]) = (Inr False, (?r3, [?R, ?W 0, ?R]))"
    using encode_write_16 [of 0] ok_in(1)
      read_16_scripted [of "Some (ascii ''@BDC PS EE:0010FF;'')" ?r3 "[?R, ?W 0]"]
    by (simp add: write_plain_def write_arg_16 logged_def scripted_def slot_FF)
  have rs: "write_plain (logged scripted) ?sp [(0x10, Some 0x42)] (Some (ascii ''Azzzzzzz'')) True
       (?r3, [?R, ?W 0, ?R]) = (Inr True, ([], [?R, ?W 0, ?R, ?W 0x42, ?R]))"
    using encode_write_16 [of "0x42"] ok_in(1)
      read_16_scripted [of "Some (ascii ''@BDC PS EE:001042;'')" "[]" "[?R, ?W 0, ?R, ?W 0x42]"]
    by (simp add: write_plain_def write_arg_16 logged_def scripted_def slot_42)
  have k: "wkey ?sp = Some (ascii ''Azzzzzzz'')"
    by simp
  show ?thesis
    unfolding write_eeprom_def Let_def
    by (simp only: k option.case if_True prev wr rs prod.case sum.case not_False_eq_True)
qed


text \<open>
  Whenever an atomic call returns: the original values were read first, the result is the
  result of the write, and a result \<^verbatim>\<open>False\<close> was followed by one non-atomic write of the
  original values. The result of the loop is a conjunction: it is \<^verbatim>\<open>True\<close> only if it
  started so.
\<close>

lemma write_eeprom_atomic_returns:
  assumes "write_eeprom chan sp addrval wkey_arg check_read True d = (Inr res, d')"
  shows "\<exists>prev d1 d2.
           read_eeprom chan sp (map fst addrval) d = (Inr prev, d1)
         \<and> write_plain chan sp addrval (case wkey_arg of None \<Rightarrow> wkey sp | Some k \<Rightarrow> Some k)
               check_read d1 = (Inr res, d2)
         \<and> (if res then d' = d2
             else \<exists>r. write_plain chan sp prev
                    (case wkey_arg of None \<Rightarrow> wkey sp | Some k \<Rightarrow> Some k) check_read d2
                  = (Inr r, d'))"
  using assms unfolding write_eeprom_def Let_def
  by (auto split: prod.splits sum.splits if_splits)

lemma write_loop_and:
  "write_loop chan sp check_read xs res d = (Inr r, d') \<Longrightarrow> r \<Longrightarrow> res"
proof (induction xs arbitrary: res d)
  case Nil
  then show ?case by simp
next
  case (Cons x xs)
  obtain av pl where x: "x = (av, pl)" by (cases x)
  from Cons.prems(1) x consider
    (a) d1 where "write_loop chan sp check_read xs res d1 = (Inr r, d')"
  | (b) d1 rd where "write_loop chan sp check_read xs (res \<and> rd = [av]) d1 = (Inr r, d')"
  | (c) d1 where "write_loop chan sp check_read xs False d1 = (Inr r, d')"
    by (auto split: sum.splits prod.splits option.splits if_splits)
  then show ?case
  proof cases
    case a
    from Cons.IH [OF a Cons.prems(2)] show ?thesis .
  next
    case b
    from Cons.IH [OF b Cons.prems(2)] show ?thesis by simp
  next
    case c
    from Cons.IH [OF c Cons.prems(2)] show ?thesis by simp
  qed
qed

section \<open>The aggregate reset\<close>

lemma search_W: "re_search_I ''waste counter'' ''Waste counter''"
  by (simp add: ci_eq_def lower_code_def)

lemma search_P: "\<not> re_search_I ''platen pad counter'' ''Waste counter''"
  by (simp add: ci_eq_def lower_code_def)

text \<open>
  C7 at an input where it fails. A waste counter entry with the key \<^verbatim>\<open>min\<close> and no key
  \<^verbatim>\<open>reset\<close>: the operation of the entry itself resets the address to \<open>min\<close>, as
  \<^verbatim>\<open>_make_reset\<close> has it (\<^verbatim>\<open>reset or min or [0]*len(addr)\<close>), while the aggregate operation
  writes zero, because \<^verbatim>\<open>get_mem\<close> takes \<^verbatim>\<open>m.get('reset', [0]*len(m['addr']))\<close> and never
  looks at \<open>min\<close>.
\<close>

theorem mem_ops_ignores_min:
  "mem_ops (default_spec\<lparr>mem := [\<lparr>m_addr = [0x10], m_desc = ''Waste counter'',
                                     m_reset = None, m_min = Some [5]\<rparr>]\<rparr>)
   = [\<lparr>op_desc = ''Waste counter'', op_pairs = [(0x10, 5)]\<rparr>,
      \<lparr>op_desc = ''All waste counters'', op_pairs = [(0x10, 0)]\<rparr>]"
  by (simp add: mem_ops_def make_reset_def reset_values_def get_mem_def get_mem_av_def
      get_reset_def dict_update_def ci_eq_def lower_code_def)

lemma dict_set_keys:
  "map fst (dict_set k v d) = (if k \<in> fst ` set d then map fst d else map fst d @ [k])"
  by (induction d) auto

lemma dict_set_keys_set: "fst ` set (dict_set k v d) = insert k (fst ` set d)"
  by (induction d) auto

lemma dict_update_keys_set:
  "fst ` set (dict_update av kvs) = fst ` set av \<union> fst ` set kvs"
  unfolding dict_update_def
proof (induction kvs arbitrary: av)
  case Nil
  then show ?case by simp
next
  case (Cons kv kvs)
  show ?case
    by (simp add: Cons.IH dict_set_keys_set)
qed

lemma dict_update_distinct:
  "distinct (map fst av) \<Longrightarrow> distinct (map fst (dict_update av kvs))"
  unfolding dict_update_def
  by (induction kvs arbitrary: av) (auto simp: dict_set_keys)

lemma get_mem_av_keys_aux:
  "fst ` set (foldl (\<lambda>av m. if re_search_I pat (m_desc m)
                     then dict_update av (zip (m_addr m) (get_reset m)) else av) av0 ms)
   = fst ` set av0 \<union>
     (\<Union>m \<in> {m \<in> set ms. re_search_I pat (m_desc m)}. fst ` set (zip (m_addr m) (get_reset m)))"
proof (induction ms arbitrary: av0)
  case Nil
  then show ?case by simp
next
  case (Cons m ms)
  show ?case
    by (cases "re_search_I pat (m_desc m)") (auto simp: Cons.IH dict_update_keys_set)
qed

lemma fst_zip_take: "fst ` set (zip xs ys) = set (take (length ys) xs)"
proof -
  have "fst ` set (zip xs ys) = set (map fst (zip xs ys))"
    by simp
  also have "\<dots> = set (take (min (length xs) (length ys)) xs)"
    by (simp only: map_fst_zip_take)
  also have "\<dots> = set (take (length ys) xs)"
    by (simp add: min_def)
  finally show ?thesis .
qed

lemma get_mem_av_distinct_aux:
  "distinct (map fst av0) \<Longrightarrow>
   distinct (map fst (foldl (\<lambda>av m. if re_search_I pat (m_desc m)
                     then dict_update av (zip (m_addr m) (get_reset m)) else av) av0 ms))"
  by (induction ms arbitrary: av0) (auto simp: dict_update_distinct)

text \<open>
  The addresses of the aggregate: without duplicates, and those of every matching entry
  that have a value in the entry's reset list.
\<close>

lemma get_mem_addresses:
  assumes "get_mem sp pat = Some g"
  shows "distinct (m_addr g)
       \<and> set (m_addr g) =
           (\<Union>m \<in> {m \<in> set (mem sp). re_search_I pat (m_desc m)}.
              set (take (length (get_reset m)) (m_addr m)))"
proof -
  from assms have g: "m_addr g = map fst (get_mem_av (mem sp) pat)"
    by (auto simp: get_mem_def Let_def split: if_splits)
  have "distinct (map fst (get_mem_av (mem sp) pat))"
    unfolding get_mem_av_def by (rule get_mem_av_distinct_aux) simp
  moreover have "set (map fst (get_mem_av (mem sp) pat)) =
      (\<Union>m \<in> {m \<in> set (mem sp). re_search_I pat (m_desc m)}.
              set (take (length (get_reset m)) (m_addr m)))"
    using get_mem_av_keys_aux [of pat "[]" "mem sp"]
    unfolding get_mem_av_def by (simp add: fst_zip_take)
  ultimately show ?thesis using g by simp
qed

section \<open>Receiving packets\<close>

lemma retreive_6:
  "retreive io 6 st =
     retreive_loop io (Suc (Suc (Suc (Suc (Suc (Suc (Suc 0))))))) (received st) st"
  by (simp add: retreive_def eval_nat_numeral)

lemma hStruct_unpack_length: "hStruct_unpack b = Inr h \<Longrightarrow> length b = 6"
  by (erule hStruct_unpack.elims) simp_all

lemma d4_decode_header:
  assumes "hStruct_unpack hd6 = Inr h"
  shows "d4_decode (hd6 @ rest) = Inr (h, rest)"
  using assms hStruct_unpack_length [OF assms] by (simp add: d4_decode_def hLen_def)

lemma slice_whole: "slice_to (int (length xs)) (xs @ ys) = xs" "slice_from (int (length xs)) (xs @ ys) = ys"
  by (simp_all add: slice_to_def slice_from_def)

text \<open>
  One packet for each call: when a read brings a whole packet and more, the packet is
  dispatched and the rest is kept in \<open>received\<close> for the next call.
\<close>

lemma retreive_one_of_many:
  assumes h: "hStruct_unpack hd6 = Inr h" and l: "payload_length h = int (length payload)"
    and r: "pipe_read io (target st) = (Inr (hd6 @ payload @ tl2), t1)"
    and e: "received st = []"
  shows "retreive io n st = on_received_link h payload (st\<lparr>target := t1, received := tl2\<rparr>)"
proof -
  have ne: "hd6 \<noteq> []"
    using hStruct_unpack_length [OF h] by auto
  have "retreive_loop io (Suc n) [] st
      = on_received_link h payload (st\<lparr>target := t1, received := tl2\<rparr>)"
    using r ne d4_decode_header [OF h, of "payload @ tl2"] l
    by (simp add: slice_whole)
  then show ?thesis
    unfolding retreive_def e by simp
qed

text \<open>
  A packet split across two reads at any point after its header is put together and
  dispatched once.
\<close>

lemma retreive_split:
  assumes h: "hStruct_unpack hd6 = Inr h" and l: "payload_length h = int (length payload)"
    and k: "6 \<le> k" "k < 6 + length payload"
    and r1: "pipe_read io (target st) = (Inr (take k (hd6 @ payload)), t1)"
    and r2: "pipe_read io t1 = (Inr (drop k (hd6 @ payload)), t2)"
    and e: "received st = []"
  shows "retreive io (Suc n) st = on_received_link h payload (st\<lparr>target := t2, received := []\<rparr>)"
proof -
  define a where "a = take k (hd6 @ payload)"
  define b where "b = drop k (hd6 @ payload)"
  have len: "length hd6 = 6"
    by (rule hStruct_unpack_length [OF h])
  have first: "a = hd6 @ take (k - 6) payload"
    unfolding a_def using len k by simp
  have ne1: "a \<noteq> []"
    unfolding a_def using len k by auto
  have ne2: "b \<noteq> []"
    unfolding b_def using len k by auto
  have ab: "a @ b = hd6 @ payload"
    unfolding a_def b_def by (rule append_take_drop_id)
  have short: "int (length (take (k - 6) payload)) < payload_length h"
    using l k by simp
  have d1: "d4_decode a = Inr (h, take (k - 6) payload)"
    unfolding first by (rule d4_decode_header [OF h])
  have d2: "d4_decode (a @ b) = Inr (h, payload)"
    unfolding ab by (rule d4_decode_header [OF h])
  have sl: "slice_to (payload_length h) payload = payload"
    "slice_from (payload_length h) payload = []"
    using slice_whole [of payload "[]"] l by simp_all
  have step2: "retreive_loop io (Suc n) a (st\<lparr>target := t1\<rparr>)
      = on_received_link h payload (st\<lparr>target := t2, received := []\<rparr>)"
    using r2 [folded b_def] ne2 d2 l sl by simp
  have "retreive_loop io (Suc (Suc n)) [] st = retreive_loop io (Suc n) a (st\<lparr>target := t1\<rparr>)"
    using r1 [folded a_def] ne1 d1 short by simp
  with step2 show ?thesis
    unfolding retreive_def e by simp
qed

text \<open>
  C8 at an input where it fails. The packet \<open>02 02 00 09 01 00 40 42 44\<close> arrives as
  \<open>hdr[:3]\<close> and \<open>hdr[3:] + payload\<close>. After the first read the buffer has three bytes and
  \<^verbatim>\<open>hStruct.unpack\<close> raises \<^verbatim>\<open>struct.error\<close>: nothing is dispatched, the second read never
  happens, and the three bytes are lost with the local buffer.
\<close>

theorem retreive_split_header:
  "retreive scripted_pipe 6
     (ctrl_link ([[0x02, 0x02, 0x00], [0x09, 0x01, 0x00, 0x40, 0x42, 0x44]], []))
   = (Inl StructError,
      ctrl_link ([[0x09, 0x01, 0x00, 0x40, 0x42, 0x44]], []))"
  by (simp add: retreive_6 ctrl_link_def init_link_def scripted_pipe_def
      d4_decode_def hLen_def)

text \<open>The same packet split after its seventh byte is dispatched once: the channel has
  the credit of the header and the payload.\<close>

lemma retreive_split_payload:
  "retreive scripted_pipe 6
     (ctrl_link ([[0x02, 0x02, 0x00, 0x09, 0x01, 0x00, 0x40], [0x42, 0x44]], []))
   = (Inr (), (ctrl_link ([], []))\<lparr>channels := (channels (ctrl_link ([], [])))
       ((0x02, 0x02) \<mapsto> \<lparr>ch_name = ''EPSON-CTRL'', ch_credit = 1,
                             ch_received = Some [0x40, 0x42, 0x44]\<rparr>)\<rparr>)"
  by (simp add: retreive_6 ctrl_link_def init_link_def scripted_pipe_def
      d4_decode_def hLen_def unpack_B_def unpack_H_be_def payload_length_def on_received_link_def
      cid_def txn_cid_def slice_to_def slice_from_def)

section \<open>Sending with credit\<close>

lemma credit_loop_True:
  "credit_loop io key cost n st = (Inr True, s1) \<Longrightarrow>
   \<exists>k c1. k < n \<and> credit_rounds io key k st = (Inr (), s1)
        \<and> channels s1 key = Some c1 \<and> cost \<le> ch_credit c1"
proof (induction n arbitrary: st)
  case 0
  then show ?case by simp
next
  case (Suc n)
  from Suc.prems obtain c where c: "channels st key = Some c"
    by (auto split: option.splits)
  show ?case
  proof (cases "cost \<le> ch_credit c")
    case True
    with Suc.prems c have "s1 = st" by simp
    with c True have "0 < Suc n \<and> credit_rounds io key 0 st = (Inr (), s1)
        \<and> channels s1 key = Some c \<and> cost \<le> ch_credit c" by simp
    then show ?thesis by blast
  next
    case False
    with Suc.prems c obtain r st1 where
      cr: "credit_request io key st = (Inr r, st1)"
      and lp: "credit_loop io key cost n st1 = (Inr True, s1)"
      by (auto split: prod.splits sum.splits)
    from Suc.IH [OF lp] obtain k c1 where
      "k < n" "credit_rounds io key k st1 = (Inr (), s1)"
      "channels s1 key = Some c1" "cost \<le> ch_credit c1" by blast
    with cr have "Suc k < Suc n \<and> credit_rounds io key (Suc k) st = (Inr (), s1)
        \<and> channels s1 key = Some c1 \<and> cost \<le> ch_credit c1" by simp
    then show ?thesis by blast
  qed
qed

lemma credit_loop_False:
  "credit_loop io key cost n st = (Inr False, s1) \<Longrightarrow> credit_rounds io key n st = (Inr (), s1)"
proof (induction n arbitrary: st)
  case 0
  then show ?case by simp
next
  case (Suc n)
  from Suc.prems obtain r st1 where
    cr: "credit_request io key st = (Inr r, st1)"
    and lp: "credit_loop io key cost n st1 = (Inr False, s1)"
    by (auto split: option.splits if_splits prod.splits sum.splits)
  from Suc.IH [OF lp] cr show ?case by simp
qed

lemma send_dispatch_Inr:
  assumes "send_dispatch io payload key credit control cost s1 = (Inr w, st')"
    and "channels s1 key = Some c1"
  shows "\<exists>b. d4_encode payload (fst key) (snd key) credit control = Inr b
           \<and> pipe_write io b (target s1) = (Inr w, target st')
           \<and> channels st' = (channels s1)(key \<mapsto> c1\<lparr>ch_credit := ch_credit c1 - cost\<rparr>)"
  using assms unfolding send_dispatch_def Let_def
  by (auto split: sum.splits prod.splits)

lemma map_sum_Some_iff:
  "map_sum id Some x \<noteq> Inr None" "(map_sum id Some x = Inr (Some w)) = (x = Inr w)"
  by (cases x; simp)+

lemma credit_loop_3: "credit_loop io key cost 3 st = credit_loop io key cost (Suc (Suc (Suc 0))) st"
  by (simp add: eval_nat_numeral)

lemma credit_rounds_3: "credit_rounds io key 3 st = credit_rounds io key (Suc (Suc (Suc 0))) st"
  by (simp add: eval_nat_numeral)

text \<open>
  What a result of \<^verbatim>\<open>send\<close> with \<^verbatim>\<open>check=True\<close> tells about the run. After \<^verbatim>\<open>None\<close>, three
  credit requests were made and nothing else. After a write result, at most two credit
  requests came first, the channel then had a credit of at least the cost, the packet
  written is the encoded payload and the result is that of the write.
\<close>

lemma send_trace:
  assumes "send io payload key credit control cost True st = (res, st')"
  shows "(res = Inr None \<longrightarrow> credit_rounds io key 3 st = (Inr (), st'))
       \<and> (\<forall>w. res = Inr (Some w) \<longrightarrow>
             (\<exists>k s1 c1 b. k < 3 \<and> credit_rounds io key k st = (Inr (), s1)
                \<and> channels s1 key = Some c1 \<and> cost \<le> ch_credit c1
                \<and> d4_encode payload (fst key) (snd key) credit control = Inr b
                \<and> pipe_write io b (target s1) = (Inr w, target st')
                \<and> channels st' = (channels s1)(key \<mapsto> c1\<lparr>ch_credit := ch_credit c1 - cost\<rparr>)
                \<and> 0 \<le> ch_credit c1 - cost))
       \<and> (\<forall>c. channels st key = Some c \<and> cost \<le> ch_credit c \<longrightarrow>
             (res, st') = (case send_dispatch io payload key credit control cost st of
                             (r, s) \<Rightarrow> (map_sum id Some r, s)))"
proof -
  obtain lr s1 where lp: "credit_loop io key cost 3 st = (lr, s1)"
    by (cases "credit_loop io key cost 3 st")
  have none: "credit_rounds io key 3 st = (Inr (), st')" if "res = Inr None"
  proof -
    from assms lp that have "lr = Inr False \<and> s1 = st'"
      by (cases lr) (auto simp: send_def map_sum_Some_iff split: bool.splits prod.splits sum.splits)
    with lp credit_loop_False show ?thesis by blast
  qed
  have some: "\<exists>k s1 c1 b. k < 3 \<and> credit_rounds io key k st = (Inr (), s1)
                \<and> channels s1 key = Some c1 \<and> cost \<le> ch_credit c1
                \<and> d4_encode payload (fst key) (snd key) credit control = Inr b
                \<and> pipe_write io b (target s1) = (Inr w, target st')
                \<and> channels st' = (channels s1)(key \<mapsto> c1\<lparr>ch_credit := ch_credit c1 - cost\<rparr>)
                \<and> 0 \<le> ch_credit c1 - cost"
    if "res = Inr (Some w)" for w
  proof -
    from assms lp that have t: "lr = Inr True"
      and d: "send_dispatch io payload key credit control cost s1 = (Inr w, st')"
      by (cases lr; auto simp: send_def map_sum_Some_iff split: bool.splits prod.splits sum.splits)+
    from credit_loop_True [OF lp [unfolded t]] obtain k c1 where
      k: "k < 3" "credit_rounds io key k st = (Inr (), s1)"
      "channels s1 key = Some c1" "cost \<le> ch_credit c1" by blast
    from send_dispatch_Inr [OF d k(3)] obtain b where
      "d4_encode payload (fst key) (snd key) credit control = Inr b"
      "pipe_write io b (target s1) = (Inr w, target st')"
      "channels st' = (channels s1)(key \<mapsto> c1\<lparr>ch_credit := ch_credit c1 - cost\<rparr>)" by blast
    with k show ?thesis by auto
  qed
  have direct: "(res, st') = (case send_dispatch io payload key credit control cost st of
                             (r, s) \<Rightarrow> (map_sum id Some r, s))"
    if "channels st key = Some c" "cost \<le> ch_credit c" for c
    using assms that by (simp add: send_def credit_loop_3)
  show ?thesis
    using none some direct by blast
qed

lemmas row_defs = row_code_def row_name_def row_sformat_def row_fields_def row_defaults_def
  row_format_def row_star_def

lemma enc_creq: "tx_encode Rev0x20 ''CreditRequest'' [VInt 2, VInt 2] = Inr [0x04, 0x02, 0x02, 0x00, 0x00]"
  by (simp add: tx_encode_def table_def protocol_0x20_def row_defs row_encode_def hTuple_def
      pack_val_def pack_B_def pack_H_be_def)

lemma dec_creq: "tx_decode Rev0x20 [0x04, 0x02, 0x02, 0x00, 0x00] =
   Inr \<lparr>tx_name = ''CreditRequest'',
        tx_vals = [(''sidP'', VInt 2), (''sidS'', VInt 2), (''maxCredit'', VInt 0)]\<rparr>"
  by (simp add: tx_decode_def table_def protocol_0x20_def row_defs row_decode_def hTuple_def
      unpack_B_def unpack_H_be_def)

lemma dec_reply: "tx_decode Rev0x20 [0x84, 0x00, 0x02, 0x02, 0x00, 0x01] =
   Inr \<lparr>tx_name = ''CreditRequestReply'',
        tx_vals = [(''result'', VInt 0), (''sidP'', VInt 2), (''sidS'', VInt 2),
                   (''addCredit'', VInt 1)]\<rparr>"
  by (simp add: tx_decode_def table_def protocol_0x20_def row_defs row_decode_def hTuple_def
      unpack_B_def unpack_H_be_def)


lemma txn_wait_8:
  "txn_wait io cmd 8 st = txn_wait io cmd (Suc (Suc (Suc (Suc (Suc (Suc (Suc (Suc 0)))))))) st"
  by (simp add: eval_nat_numeral)

text \<open>The credit request of \<^verbatim>\<open>send\<close> is the transaction call of the command
  \<^verbatim>\<open>CreditRequest\<close>.\<close>

lemma txn_call_CreditRequest:
  "txn_call io ''CreditRequest'' [VInt (fst key), VInt (snd key)] st = credit_request io key st"
proof -
  have "(\<lambda>payload. send io payload txn_cid 1 0 1 False)
      = (\<lambda>payload s. case send_dispatch io payload txn_cid 1 0 1 s of
                         (r, s1) \<Rightarrow> (map_sum id Some r, s1))"
    by (intro ext) (simp add: send_def)
  then show ?thesis
    by (simp add: txn_call_def credit_request_def)
qed

lemma ctrl_link_state: "ctrl_link (rs, ws) = ctrl_state rs ws 0 0 None"
  by (simp add: ctrl_link_def ctrl_state_def init_link_def)

lemma d4_creq: "d4_encode [0x04, 0x02, 0x02, 0x00, 0x00] 0 0 1 0 =
      Inr [0x00, 0x00, 0x00, 0x0B, 0x01, 0x00, 0x04, 0x02, 0x02, 0x00, 0x00]"
  by (simp add: d4_encode_def hStruct_pack_def pack_B_def pack_H_be_def hLen_def)

lemma ctrl_state_txn:
  "(channels (ctrl_state rs ws n k x))
      (txn_cid \<mapsto> \<lparr>ch_name = ''(transaction channel)'', ch_credit = m, ch_received = None\<rparr>)
   = channels (ctrl_state rs ws m k x)"
  by (rule ext) (simp add: ctrl_state_def txn_cid_def)

lemma ctrl_state_ctrl:
  "(channels (ctrl_state rs ws n k x))
      ((0x02, 0x02) \<mapsto> \<lparr>ch_name = ''EPSON-CTRL'', ch_credit = m, ch_received = None\<rparr>)
   = channels (ctrl_state rs ws n m x)"
  by (rule ext) (simp add: ctrl_state_def txn_cid_def)

lemma ctrl_state_sel:
  "target (ctrl_state rs ws n k x) = (rs, ws)"
  "received (ctrl_state rs ws n k x) = []"
  "txn_protocol (ctrl_state rs ws n k x) = Rev0x20"
  "txn_received (ctrl_state rs ws n k x) = x"
  "channels (ctrl_state rs ws n k x) txn_cid
     = Some \<lparr>ch_name = ''(transaction channel)'', ch_credit = n, ch_received = None\<rparr>"
  "channels (ctrl_state rs ws n k x) (0x02, 0x02)
     = Some \<lparr>ch_name = ''EPSON-CTRL'', ch_credit = k, ch_received = None\<rparr>"
  by (simp_all add: ctrl_state_def txn_cid_def)

lemma ctrl_state_upd:
  "(ctrl_state rs ws n k x)\<lparr>target := (rs', ws')\<rparr> = ctrl_state rs' ws' n k x"
  "(ctrl_state rs ws n k x)\<lparr>txn_received := y\<rparr> = ctrl_state rs ws n k y"
  "(ctrl_state rs ws n k x)\<lparr>received := []\<rparr> = ctrl_state rs ws n k x"
  "(ctrl_state rs ws n k x)\<lparr>channels := channels (ctrl_state rs' ws' n' k' x')\<rparr>
     = ctrl_state rs ws n' k' x"
  by (simp_all add: ctrl_state_def)

lemma txn_cid_sel: "fst txn_cid = 0" "snd txn_cid = 0" "(2, 2) \<noteq> txn_cid" "(0, 0) = txn_cid"
  by (simp_all add: txn_cid_def)

lemma scripted_pipe_sel:
  "pipe_write scripted_pipe b (rs, ws) = (Inr (int (length b)), (rs, ws @ [b]))"
  "pipe_read scripted_pipe ([], ws) = (Inr [], ([], ws))"
  "pipe_read scripted_pipe (r # rs, ws) = (Inr r, (rs, ws))"
  by (simp_all add: scripted_pipe_def)



lemma dispatch_txn:
  "send_dispatch scripted_pipe pl txn_cid 1 0 1 (ctrl_state rs ws n k x) =
     (case d4_encode pl 0 0 1 0 of
        Inl e \<Rightarrow> (Inl e, ctrl_state rs ws (n - 1) k x)
      | Inr b \<Rightarrow> (Inr (int (length b)), ctrl_state rs (ws @ [b]) (n - 1) k x))"
  unfolding send_dispatch_def
  by (simp add: ctrl_state_sel ctrl_state_txn ctrl_state_upd txn_cid_sel scripted_pipe_sel
      split: sum.splits)

lemma dispatch_ctrl:
  "send_dispatch scripted_pipe pl (0x02, 0x02) cr ct cost (ctrl_state rs ws n k x) =
     (case d4_encode pl 2 2 cr ct of
        Inl e \<Rightarrow> (Inl e, ctrl_state rs ws n (k - cost) x)
      | Inr b \<Rightarrow> (Inr (int (length b)), ctrl_state rs (ws @ [b]) n (k - cost) x))"
  unfolding send_dispatch_def
  by (simp add: ctrl_state_sel ctrl_state_ctrl ctrl_state_upd scripted_pipe_sel
      split: sum.splits)


lemma dec_reply_n: "tx_decode Rev0x20 [0x84, 0x00, 0x02, 0x02, 0x00, a] =
   Inr \<lparr>tx_name = ''CreditRequestReply'',
        tx_vals = [(''result'', VInt 0), (''sidP'', VInt 2), (''sidS'', VInt 2),
                   (''addCredit'', VInt (uint a))]\<rparr>"
  by (simp add: tx_decode_def table_def protocol_0x20_def row_defs row_decode_def hTuple_def
      unpack_B_def unpack_H_be_def)

lemma retreive_reply:
  "retreive scripted_pipe 6
     (ctrl_state ([0x00, 0x00, 0x00, 0x0C, 0x01, 0x00, 0x84, 0x00, 0x02, 0x02, 0x00, a] # rs) ws n k x)
   = (Inr (), ctrl_state rs ws (n + 1) (k + uint a)
        (Some \<lparr>tx_name = ''CreditRequestReply'',
           tx_vals = [(''result'', VInt 0), (''sidP'', VInt 2), (''sidS'', VInt 2),
                      (''addCredit'', VInt (uint a))]\<rparr>))"
proof -
  have dd: "d4_decode [0x00, 0x00, 0x00, 0x0C, 0x01, 0x00, 0x84, 0x00, 0x02, 0x02, 0x00, a] =
      Inr (\<lparr>hdr_psid = 0, hdr_ssid = 0, hdr_length = 12, hdr_credit = 1, hdr_control = 0\<rparr>,
           [0x84, 0x00, 0x02, 0x02, 0x00, a])"
    by (simp add: d4_decode_def hLen_def unpack_B_def unpack_H_be_def)
  show ?thesis
    by (simp add: retreive_6 ctrl_state_sel scripted_pipe_sel dd payload_length_def
        hLen_def slice_to_def slice_from_def on_received_link_def cid_def
        txn_cid_sel ctrl_state_txn ctrl_state_ctrl ctrl_state_upd
        txn_on_received_def dec_reply_n field_def add_credit_def)
qed

lemma credit_request_answered:
  "credit_request scripted_pipe (0x02, 0x02)
     (ctrl_state ([0x00, 0x00, 0x00, 0x0C, 0x01, 0x00, 0x84, 0x00, 0x02, 0x02, 0x00, a] # rs) ws n k x)
   = (Inr (Some \<lparr>tx_name = ''CreditRequestReply'',
          tx_vals = [(''result'', VInt 0), (''sidP'', VInt 2), (''sidS'', VInt 2),
                     (''addCredit'', VInt (uint a))]\<rparr>),
      ctrl_state rs (ws @ [[0x00, 0x00, 0x00, 0x0B, 0x01, 0x00, 0x04, 0x02, 0x02, 0x00, 0x00]])
        n (k + uint a)
        (Some \<lparr>tx_name = ''CreditRequestReply'',
           tx_vals = [(''result'', VInt 0), (''sidP'', VInt 2), (''sidS'', VInt 2),
                      (''addCredit'', VInt (uint a))]\<rparr>))"
  unfolding credit_request_def txn_call_with_def
  by (simp add: ctrl_state_sel enc_creq dec_creq dispatch_txn d4_creq ctrl_state_upd
      txn_wait_8 retreive_reply)





text \<open>
  The loop of \<^verbatim>\<open>send\<close> tests the credit before each request and not after the last one.
  Against a peer that grants no credit in its first two replies and one credit in the
  third, the channel has the credit it needs after the third request, and \<^verbatim>\<open>send\<close>
  returns \<^verbatim>\<open>None\<close> all the same, without writing the payload.
\<close>

lemma send_third_grant:
  "send scripted_pipe [0x64, 0x69, 0x01, 0x00, 0x01] (0x02, 0x02) 1 0 1 True
      (ctrl_link ([[0x00, 0x00, 0x00, 0x0C, 0x01, 0x00, 0x84, 0x00, 0x02, 0x02, 0x00, 0x00],
      [0x00, 0x00, 0x00, 0x0C, 0x01, 0x00, 0x84, 0x00, 0x02, 0x02, 0x00, 0x00],
      [0x00, 0x00, 0x00, 0x0C, 0x01, 0x00, 0x84, 0x00, 0x02, 0x02, 0x00, 0x01]], []))
   = (Inr None,
      \<lparr>target = ([], [[0x00, 0x00, 0x00, 0x0B, 0x01, 0x00, 0x04, 0x02, 0x02, 0x00, 0x00],
                      [0x00, 0x00, 0x00, 0x0B, 0x01, 0x00, 0x04, 0x02, 0x02, 0x00, 0x00],
                      [0x00, 0x00, 0x00, 0x0B, 0x01, 0x00, 0x04, 0x02, 0x02, 0x00, 0x00]]),
       channels = [txn_cid \<mapsto> \<lparr>ch_name = ''(transaction channel)'', ch_credit = 0,
                                 ch_received = None\<rparr>,
                   (0x02, 0x02) \<mapsto> \<lparr>ch_name = ''EPSON-CTRL'', ch_credit = 1,
                                      ch_received = None\<rparr>],
       received = [], txn_protocol = Rev0x20,
       txn_received = Some \<lparr>tx_name = ''CreditRequestReply'',
          tx_vals = [(''result'', VInt 0), (''sidP'', VInt 2), (''sidS'', VInt 2),
                     (''addCredit'', VInt 1)]\<rparr>\<rparr>)"
proof -
  have "send scripted_pipe [0x64, 0x69, 0x01, 0x00, 0x01] (0x02, 0x02) 1 0 1 True
      (ctrl_state [[0x00, 0x00, 0x00, 0x0C, 0x01, 0x00, 0x84, 0x00, 0x02, 0x02, 0x00, 0x00],
      [0x00, 0x00, 0x00, 0x0C, 0x01, 0x00, 0x84, 0x00, 0x02, 0x02, 0x00, 0x00],
      [0x00, 0x00, 0x00, 0x0C, 0x01, 0x00, 0x84, 0x00, 0x02, 0x02, 0x00, 0x01]] [] 0 0 None)
      = (Inr None, ctrl_state [] [[0x00, 0x00, 0x00, 0x0B, 0x01, 0x00, 0x04, 0x02, 0x02, 0x00, 0x00],
          [0x00, 0x00, 0x00, 0x0B, 0x01, 0x00, 0x04, 0x02, 0x02, 0x00, 0x00],
          [0x00, 0x00, 0x00, 0x0B, 0x01, 0x00, 0x04, 0x02, 0x02, 0x00, 0x00]] 0 1
          (Some \<lparr>tx_name = ''CreditRequestReply'',
          tx_vals = [(''result'', VInt 0), (''sidP'', VInt 2), (''sidS'', VInt 2),
                     (''addCredit'', VInt 1)]\<rparr>))"
    by (simp add: send_def credit_loop_3 ctrl_state_sel credit_request_answered)
  then show ?thesis
    unfolding ctrl_link_state by (simp add: ctrl_state_def)
qed



section \<open>Negotiating the revision\<close>

text \<open>
  C3. \<^verbatim>\<open>_send_init(revision)\<close> after the reply \<^verbatim>\<open>InitReply(res, rv)\<close> to its \<^verbatim>\<open>Init\<close>: result
  \<open>0x00\<close> is success; results \<open>0x01\<close> and \<open>0x0B\<close> raise; result \<open>0x02\<close> with another revision
  \<open>0x10\<close> or \<open>0x20\<close> switches the command table of the transaction channel to it and
  sends \<^verbatim>\<open>Init\<close> again with it; result \<open>0x02\<close> with any other revision fails (\<^verbatim>\<open>None\<close>).
  In particular, when \<^verbatim>\<open>Init(0x20)\<close> is answered by \<^verbatim>\<open>InitReply(0x02, 0x10)\<close> and the second
  \<^verbatim>\<open>Init\<close>, sent with revision \<open>0x10\<close> under the table of revision \<open>0x10\<close>, is answered by
  \<^verbatim>\<open>InitReply(0x00, 0x10)\<close>, the call succeeds.
\<close>

theorem send_init_reply:
  assumes "txn_call io ''Init'' [VInt revision] st = (Inr (Some p), st1)"
    and "map snd (tx_vals p) = [VInt res, VInt rv]"
  shows "(res = 0x00 \<longrightarrow> send_init io (Suc depth) revision st = (Inr (Some True), st1))
       \<and> (res = 0x01 \<or> res = 0x0B \<longrightarrow> send_init io (Suc depth) revision st = (Inl TypeError, st1))
       \<and> (res = 0x02 \<and> rv \<noteq> revision \<and> rv = 0x10 \<longrightarrow>
            send_init io (Suc depth) revision st
              = send_init io depth 0x10 (st1\<lparr>txn_protocol := Rev0x10\<rparr>))
       \<and> (res = 0x02 \<and> rv \<noteq> revision \<and> rv = 0x20 \<longrightarrow>
            send_init io (Suc depth) revision st
              = send_init io depth 0x20 (st1\<lparr>txn_protocol := Rev0x20\<rparr>))
       \<and> (res = 0x02 \<and> rv \<noteq> revision \<and> rv \<noteq> 0x10 \<and> rv \<noteq> 0x20 \<longrightarrow>
            send_init io (Suc depth) revision st = (Inr None, st1))
       \<and> (revision = 0x20 \<and> res = 0x02 \<and> rv = 0x10
            \<and> txn_call io ''Init'' [VInt 0x10] (st1\<lparr>txn_protocol := Rev0x10\<rparr>)
                  = (Inr (Some p2), st2)
            \<and> map snd (tx_vals p2) = [VInt 0x00, VInt 0x10] \<longrightarrow>
            send_init io (Suc (Suc depth)) revision st = (Inr (Some True), st2))"
proof -
  note first = assms
  have ok: "send_init io (Suc depth) revision st = (Inr (Some True), st1)" if "res = 0x00"
    using first that by simp
  have hard: "send_init io (Suc depth) revision st = (Inl TypeError, st1)"
    if "res = 0x01 \<or> res = 0x0B"
    using first that by auto
  have switch10: "send_init io (Suc d) revision st
      = send_init io d 0x10 (st1\<lparr>txn_protocol := Rev0x10\<rparr>)"
    if "res = 0x02" "rv \<noteq> revision" "rv = 0x10" for d
    using first that by simp
  have switch20: "send_init io (Suc depth) revision st
      = send_init io depth 0x20 (st1\<lparr>txn_protocol := Rev0x20\<rparr>)"
    if "res = 0x02" "rv \<noteq> revision" "rv = 0x20"
    using first that by simp
  have unknown: "send_init io (Suc depth) revision st = (Inr None, st1)"
    if "res = 0x02" "rv \<noteq> revision" "rv \<noteq> 0x10" "rv \<noteq> 0x20"
    using first that by simp
  have again: "send_init io (Suc (Suc depth)) revision st = (Inr (Some True), st2)"
    if "revision = 0x20" "res = 0x02" "rv = 0x10"
      and second: "txn_call io ''Init'' [VInt 0x10] (st1\<lparr>txn_protocol := Rev0x10\<rparr>)
                  = (Inr (Some p2), st2)"
        "map snd (tx_vals p2) = [VInt 0x00, VInt 0x10]"
  proof -
    have "send_init io (Suc (Suc depth)) revision st
        = send_init io (Suc depth) 0x10 (st1\<lparr>txn_protocol := Rev0x10\<rparr>)"
      using that(1-3) by (intro switch10) simp_all
    also have "\<dots> = (Inr (Some True), st2)"
      using second by simp
    finally show ?thesis .
  qed
  show ?thesis
    using ok hard switch10 [of depth] switch20 unknown again by blast
qed

lemma enc_init_20: "tx_encode Rev0x20 ''Init'' [VInt 0x20] = Inr [0x00, 0x20]"
  by (simp add: tx_encode_def table_def protocol_0x20_def row_defs row_encode_def hTuple_def
      pack_val_def pack_B_def)

lemma dec_init_20: "tx_decode Rev0x20 [0x00, 0x20] =
    Inr \<lparr>tx_name = ''Init'', tx_vals = [(''revision'', VInt 0x20)]\<rparr>"
  by (simp add: tx_decode_def table_def protocol_0x20_def row_defs row_decode_def hTuple_def
      unpack_B_def)

lemma enc_init_10: "tx_encode Rev0x10 ''Init'' [VInt 0x10] = Inr [0x00, 0x10]"
  by (simp add: tx_encode_def table_def protocol_0x10_def row_defs row_encode_def hTuple_def
      pack_val_def pack_B_def)

lemma dec_init_10: "tx_decode Rev0x10 [0x00, 0x10] =
    Inr \<lparr>tx_name = ''Init'', tx_vals = [(''revision'', VInt 0x10)]\<rparr>"
  by (simp add: tx_decode_def table_def protocol_0x10_def row_defs row_decode_def hTuple_def
      unpack_B_def)

lemma dec_initreply_20: "tx_decode Rev0x20 [0x80, 0x02, 0x10] =
    Inr \<lparr>tx_name = ''InitReply'', tx_vals = [(''result'', VInt 0x02), (''revision'', VInt 0x10)]\<rparr>"
  by (simp add: tx_decode_def table_def protocol_0x20_def row_defs row_decode_def hTuple_def
      unpack_B_def)

lemma dec_initreply_10: "tx_decode Rev0x10 [0x80, 0x00, 0x10] =
    Inr \<lparr>tx_name = ''InitReply'', tx_vals = [(''result'', VInt 0x00), (''revision'', VInt 0x10)]\<rparr>"
  by (simp add: tx_decode_def table_def protocol_0x10_def row_defs row_decode_def hTuple_def
      unpack_B_def)

lemma d4_init_packets:
  "d4_encode [0x00, 0x20] 0 0 1 0 = Inr [0x00, 0x00, 0x00, 0x08, 0x01, 0x00, 0x00, 0x20]"
  "d4_encode [0x00, 0x10] 0 0 1 0 = Inr [0x00, 0x00, 0x00, 0x08, 0x01, 0x00, 0x00, 0x10]"
  "d4_decode [0x00, 0x00, 0x00, 0x09, 0x01, 0x00, 0x80, 0x02, 0x10] =
     Inr (\<lparr>hdr_psid = 0, hdr_ssid = 0, hdr_length = 9, hdr_credit = 1, hdr_control = 0\<rparr>,
          [0x80, 0x02, 0x10])"
  "d4_decode [0x00, 0x00, 0x00, 0x09, 0x01, 0x00, 0x80, 0x00, 0x10] =
     Inr (\<lparr>hdr_psid = 0, hdr_ssid = 0, hdr_length = 9, hdr_credit = 1, hdr_control = 0\<rparr>,
          [0x80, 0x00, 0x10])"
  by (simp_all add: d4_encode_def d4_decode_def hStruct_pack_def pack_B_def pack_H_be_def hLen_def
      unpack_B_def unpack_H_be_def)

lemma init_first:
  "txn_call scripted_pipe ''Init'' [VInt 0x20]
     (init_link ([[0x00, 0x00, 0x00, 0x09, 0x01, 0x00, 0x80, 0x02, 0x10],
                  [0x00, 0x00, 0x00, 0x09, 0x01, 0x00, 0x80, 0x00, 0x10]], []))
   = (Inr (Some \<lparr>tx_name = ''InitReply'',
                  tx_vals = [(''result'', VInt 0x02), (''revision'', VInt 0x10)]\<rparr>),
      \<lparr>target = ([[0x00, 0x00, 0x00, 0x09, 0x01, 0x00, 0x80, 0x00, 0x10]],
                 [[0x00, 0x00, 0x00, 0x08, 0x01, 0x00, 0x00, 0x20]]),
       channels = [txn_cid \<mapsto> \<lparr>ch_name = ''(transaction channel)'', ch_credit = 1,
                                 ch_received = None\<rparr>],
       received = [], txn_protocol = Rev0x20,
       txn_received = Some \<lparr>tx_name = ''InitReply'',
                  tx_vals = [(''result'', VInt 0x02), (''revision'', VInt 0x10)]\<rparr>\<rparr>)"
  unfolding txn_call_def txn_call_with_def
  by (simp add: init_link_def enc_init_20 dec_init_20 send_def credit_loop_3 send_dispatch_def
      txn_cid_def d4_init_packets scripted_pipe_def txn_wait_8 retreive_6 payload_length_def
      hLen_def slice_to_def slice_from_def on_received_link_def cid_def txn_on_received_def
      dec_initreply_20 field_def)

lemma init_second:
  "txn_call scripted_pipe ''Init'' [VInt 0x10]
      \<lparr>target = ([[0x00, 0x00, 0x00, 0x09, 0x01, 0x00, 0x80, 0x00, 0x10]],
                 [[0x00, 0x00, 0x00, 0x08, 0x01, 0x00, 0x00, 0x20]]),
       channels = [txn_cid \<mapsto> \<lparr>ch_name = ''(transaction channel)'', ch_credit = 1,
                                 ch_received = None\<rparr>],
       received = [], txn_protocol = Rev0x10,
       txn_received = Some \<lparr>tx_name = ''InitReply'',
                  tx_vals = [(''result'', VInt 0x02), (''revision'', VInt 0x10)]\<rparr>\<rparr>
   = (Inr (Some \<lparr>tx_name = ''InitReply'',
                  tx_vals = [(''result'', VInt 0x00), (''revision'', VInt 0x10)]\<rparr>),
      \<lparr>target = ([], [[0x00, 0x00, 0x00, 0x08, 0x01, 0x00, 0x00, 0x20],
                      [0x00, 0x00, 0x00, 0x08, 0x01, 0x00, 0x00, 0x10]]),
       channels = [txn_cid \<mapsto> \<lparr>ch_name = ''(transaction channel)'', ch_credit = 2,
                                 ch_received = None\<rparr>],
       received = [], txn_protocol = Rev0x10,
       txn_received = Some \<lparr>tx_name = ''InitReply'',
                  tx_vals = [(''result'', VInt 0x00), (''revision'', VInt 0x10)]\<rparr>\<rparr>)"
  unfolding txn_call_def txn_call_with_def
  by (simp add: enc_init_10 dec_init_10 send_def credit_loop_3 send_dispatch_def
      txn_cid_def d4_init_packets scripted_pipe_def txn_wait_8 retreive_6 payload_length_def
      hLen_def slice_to_def slice_from_def on_received_link_def cid_def txn_on_received_def
      dec_initreply_10 field_def)

text \<open>
  A new link against a peer that answers \<^verbatim>\<open>InitReply(0x02, 0x10)\<close> and then
  \<^verbatim>\<open>InitReply(0x00, 0x10)\<close>: \<^verbatim>\<open>_send_init(0x20)\<close> succeeds, the pipe has seen \<^verbatim>\<open>Init(0x20)\<close> and
  then \<^verbatim>\<open>Init(0x10)\<close>, and the table is that of revision \<open>0x10\<close>.
\<close>

theorem send_init_reply_witness:
  "send_init scripted_pipe 2 0x20
     (init_link ([[0x00, 0x00, 0x00, 0x09, 0x01, 0x00, 0x80, 0x02, 0x10],
                  [0x00, 0x00, 0x00, 0x09, 0x01, 0x00, 0x80, 0x00, 0x10]], []))
   = (Inr (Some True),
      \<lparr>target = ([], [[0x00, 0x00, 0x00, 0x08, 0x01, 0x00, 0x00, 0x20],
                      [0x00, 0x00, 0x00, 0x08, 0x01, 0x00, 0x00, 0x10]]),
       channels = [txn_cid \<mapsto> \<lparr>ch_name = ''(transaction channel)'', ch_credit = 2,
                                 ch_received = None\<rparr>],
       received = [], txn_protocol = Rev0x10,
       txn_received = Some \<lparr>tx_name = ''InitReply'',
                  tx_vals = [(''result'', VInt 0x00), (''revision'', VInt 0x10)]\<rparr>\<rparr>)"
proof -
  have two: "(2 :: nat) = Suc (Suc 0)"
    by simp
  have second: "txn_call scripted_pipe ''Init'' [VInt 0x10]
      (\<lparr>target = ([[0x00, 0x00, 0x00, 0x09, 0x01, 0x00, 0x80, 0x00, 0x10]],
                 [[0x00, 0x00, 0x00, 0x08, 0x01, 0x00, 0x00, 0x20]]),
       channels = [txn_cid \<mapsto> \<lparr>ch_name = ''(transaction channel)'', ch_credit = 1,
                                 ch_received = None\<rparr>],
       received = [], txn_protocol = Rev0x20,
       txn_received = Some \<lparr>tx_name = ''InitReply'',
                  tx_vals = [(''result'', VInt 0x02), (''revision'', VInt 0x10)]\<rparr>\<rparr>
       \<lparr>txn_protocol := Rev0x10\<rparr>)
   = (Inr (Some \<lparr>tx_name = ''InitReply'',
                  tx_vals = [(''result'', VInt 0x00), (''revision'', VInt 0x10)]\<rparr>),
      \<lparr>target = ([], [[0x00, 0x00, 0x00, 0x08, 0x01, 0x00, 0x00, 0x20],
                      [0x00, 0x00, 0x00, 0x08, 0x01, 0x00, 0x00, 0x10]]),
       channels = [txn_cid \<mapsto> \<lparr>ch_name = ''(transaction channel)'', ch_credit = 2,
                                 ch_received = None\<rparr>],
       received = [], txn_protocol = Rev0x10,
       txn_received = Some \<lparr>tx_name = ''InitReply'',
                  tx_vals = [(''result'', VInt 0x00), (''revision'', VInt 0x10)]\<rparr>\<rparr>)"
    using init_second by simp
  show ?thesis
    unfolding two
    using send_init_reply [OF init_first, of 2 "0x10" 0
        "\<lparr>tx_name = ''InitReply'',
          tx_vals = [(''result'', VInt 0x00), (''revision'', VInt 0x10)]\<rparr>"] second
    by simp
qed

end
